theory Spec2Isabelle
  imports Main
begin

section \<open>Data model\<close>

text \<open>
  The program (\<^verbatim>\<open>src/index.js\<close>) lists the hosted zones of an account, lists the record
  sets of every zone, and searches the record values for the configured target.
  Objects of the service's responses are modelled as records with the fields the
  program reads. JavaScript strings are modelled as \<^typ>\<open>string\<close>; a property that may be
  \<^verbatim>\<open>undefined\<close> is an \<^typ>\<open>'a option\<close>.
\<close>

record resource_record =
  Value :: string

record alias_target =
  DNSName :: string

record resource_record_set =
  Name :: string
  Type :: string
  AliasTarget :: "alias_target option"
  ResourceRecords :: "resource_record list option"

text \<open>
  A hosted zone object. \<open>zone_Id\<close> and \<open>zone_Name\<close> are the properties \<^verbatim>\<open>Id\<close> and
  \<^verbatim>\<open>Name\<close> of the source; \<open>recordSets\<close> is the property the program attaches later
  and is \<^verbatim>\<open>undefined\<close> until then.
\<close>

record hosted_zone =
  zone_Id :: string
  zone_Name :: string
  recordSets :: "resource_record_set list option"

record list_hosted_zones_response =
  HostedZones :: "hosted_zone list"
  IsTruncated :: bool
  NextMarker :: "string option"

record list_resource_record_sets_response =
  ResourceRecordSets :: "resource_record_set list"
  IsTruncatedRR :: bool
  NextRecordName :: "string option"
  NextRecordType :: "string option"
  NextRecordIdentifier :: "string option"

record list_resource_record_sets_params =
  HostedZoneId :: string
  StartRecordName :: "string option"
  StartRecordType :: "string option"
  StartRecordIdentifier :: "string option"

text \<open>The commands the program sends; the argument of the first one is its \<^verbatim>\<open>Marker\<close>.\<close>

datatype command =
  ListHostedZonesCommand "string option"
| ListResourceRecordSetsCommand list_resource_record_sets_params

text \<open>
  What the program can throw: a rejected \<^verbatim>\<open>client.send\<close>, the \<^verbatim>\<open>SyntaxError\<close> of
  \<^verbatim>\<open>new RegExp\<close>, and the \<^verbatim>\<open>TypeError\<close> of iterating an \<^verbatim>\<open>undefined\<close> property.
\<close>

datatype error = ApiError string | SyntaxError | TypeError

text \<open>
  The service client (\<^verbatim>\<open>client.send\<close>), one function per command. The service is taken
  to answer a given request the same way throughout one run.
\<close>

record client =
  send_ListHostedZones :: "string option \<Rightarrow> error + list_hosted_zones_response"
  send_ListResourceRecordSets ::
    "list_resource_record_sets_params \<Rightarrow> error + list_resource_record_sets_response"

text \<open>The object \<^verbatim>\<open>startRecord\<close> that \<^verbatim>\<open>_getRecordSetsForZone\<close> passes to itself.\<close>

record start_record =
  sr_name :: "string option"
  sr_type :: "string option"
  sr_identifier :: "string option"

text \<open>
  The state the program works on: the store of zone objects (an object's reference is
  its index) and the commands sent so far, oldest first.
\<close>

record state =
  heap :: "hosted_zone list"
  sent :: "command list"

text \<open>
  The options of \<^verbatim>\<open>_parseArgs\<close> that the search reads: \<^verbatim>\<open>options.record\<close> and
  \<^verbatim>\<open>options.match\<close>, both strings. (An argument that reads as a number reaches
  \<^verbatim>\<open>options.record\<close> as a number; such a target is not a value of this type.)
\<close>

record options =
  opt_record :: string
  opt_match :: string

record result_row =
  hostedZoneId :: string
  hostedZoneName :: string
  recordType :: string
  recordName :: string
  recordValue :: string

section \<open>The built-in regular expressions\<close>

text \<open>
  \<^verbatim>\<open>new RegExp(pattern)\<close> and \<^verbatim>\<open>test\<close> are built-ins of the language, not code of the
  program, and are a parameter of everything below. \<open>RegExp p\<close> stands for
  \<^verbatim>\<open>new RegExp(p)\<close>: the error for a pattern that is rejected, or else the function
  \<^verbatim>\<open>test\<close> of the compiled expression. The program sets no flag, so \<^verbatim>\<open>test\<close> starts at
  index 0 at every call and its result is a function of the candidate alone.
\<close>

type_synonym regexp = "string \<Rightarrow> error + (string \<Rightarrow> bool)"

section \<open>The program\<close>

subsection \<open>Listing the hosted zones\<close>

text \<open>
  \<^verbatim>\<open>s.split(sep)\<close> for a separator of one character: the pieces of \<open>s\<close> between the
  separators, at least one piece.
\<close>

fun split :: "char \<Rightarrow> string \<Rightarrow> string list" where
  "split sep [] = [[]]"
| "split sep (c # cs) =
     (if c = sep then [] # split sep cs
      else (case split sep cs of
              [] \<Rightarrow> [[c]]
            | w # ws \<Rightarrow> (c # w) # ws))"

text \<open>
  \<^verbatim>\<open>hostedZone.Id.split('/').pop()\<close>: \<^verbatim>\<open>pop\<close> returns the last element of the array,
  which \<^verbatim>\<open>split\<close> never leaves empty (\<open>split_not_Nil\<close> below).
\<close>

definition split_pop :: "string \<Rightarrow> string" where
  "split_pop s = last (split CHR ''/'' s)"

text \<open>
  \<^verbatim>\<open>hostedZones.add(hostedZone)\<close> on a \<^verbatim>\<open>Set\<close> of objects: the members are references,
  kept in insertion order, and a reference that is already a member is not added again.
\<close>

definition Set_add :: "nat \<Rightarrow> nat list \<Rightarrow> nat list" where
  "Set_add r S = (if r \<in> set S then S else S @ [r])"

text \<open>
  The objects of a response are new objects: \<open>alloc h zs\<close> puts them at the end of the
  store and returns their references.
\<close>

definition alloc :: "hosted_zone list \<Rightarrow> hosted_zone list \<Rightarrow> nat list \<times> hosted_zone list" where
  "alloc h zs = ([length h ..< length h + length zs], h @ zs)"

text \<open>The loop over \<^verbatim>\<open>response.HostedZones\<close>.\<close>

fun add_zones :: "nat list \<Rightarrow> hosted_zone list \<times> nat list \<Rightarrow> hosted_zone list \<times> nat list" where
  "add_zones [] (h, S) = (h, S)"
| "add_zones (r # rs) (h, S) =
     add_zones rs (h[r := (h ! r)\<lparr>zone_Id := split_pop (zone_Id (h ! r))\<rparr>], Set_add r S)"

text \<open>
  \<^verbatim>\<open>_listHostedZones(hostedZones, marker)\<close>. The recursion ends when a response is not
  truncated or a call fails; a service that answers every request with a truncated page
  keeps it running, which is the value \<open>None\<close>.
\<close>

partial_function (option) listHostedZones ::
  "client \<Rightarrow> state \<Rightarrow> nat list \<Rightarrow> string option \<Rightarrow> (state \<times> (error + nat list)) option"
where
  "listHostedZones c st hostedZones marker =
     (let st1 = st\<lparr>sent := sent st @ [ListHostedZonesCommand marker]\<rparr> in
      case send_ListHostedZones c marker of
        Inl e \<Rightarrow> Some (st1, Inl e)
      | Inr response \<Rightarrow>
          (let (refs, h1) = alloc (heap st1) (HostedZones response);
               (h2, S) = add_zones refs (h1, hostedZones);
               st2 = st1\<lparr>heap := h2\<rparr>
           in if IsTruncated response
              then listHostedZones c st2 S (NextMarker response)
              else Some (st2, Inr S)))"

subsection \<open>Listing the record sets\<close>

text \<open>
  \<^verbatim>\<open>_getRecordSetsForZone(hostedZone, recordSets, startRecord)\<close>; \<open>hostedZone\<close> is the
  reference of the zone object. \<^verbatim>\<open>startRecord?.name\<close> is \<^verbatim>\<open>undefined\<close> when
  \<^verbatim>\<open>startRecord\<close> is.
\<close>

partial_function (option) getRecordSetsForZone ::
  "client \<Rightarrow> state \<Rightarrow> nat \<Rightarrow> resource_record_set list \<Rightarrow> start_record option
   \<Rightarrow> (state \<times> (error + resource_record_set list)) option"
where
  "getRecordSetsForZone c st hostedZone rsets startRecord =
     (let params = \<lparr>HostedZoneId = zone_Id (heap st ! hostedZone),
                     StartRecordName = Option.bind startRecord sr_name,
                     StartRecordType = Option.bind startRecord sr_type,
                     StartRecordIdentifier = Option.bind startRecord sr_identifier\<rparr>;
          st1 = st\<lparr>sent := sent st @ [ListResourceRecordSetsCommand params]\<rparr>
      in case send_ListResourceRecordSets c params of
           Inl e \<Rightarrow> Some (st1, Inl e)
         | Inr response \<Rightarrow>
             (let rsets1 = rsets @ ResourceRecordSets response
              in if IsTruncatedRR response
                 then getRecordSetsForZone c st1 hostedZone rsets1
                        (Some \<lparr>sr_name = NextRecordName response,
                               sr_type = NextRecordType response,
                               sr_identifier = NextRecordIdentifier response\<rparr>)
                 else Some (st1, Inr rsets1)))"

text \<open>
  \<^verbatim>\<open>_getRecordSetsForZones(hostedZones)\<close>: for every member of the set, in insertion
  order, the record sets are listed and attached to the zone object.
\<close>

fun getRecordSetsForZones ::
  "client \<Rightarrow> state \<Rightarrow> nat list \<Rightarrow> (state \<times> (error + unit)) option" where
  "getRecordSetsForZones c st [] = Some (st, Inr ())"
| "getRecordSetsForZones c st (r # rs) =
     (case getRecordSetsForZone c st r [] None of
        None \<Rightarrow> None
      | Some (st1, Inl e) \<Rightarrow> Some (st1, Inl e)
      | Some (st1, Inr rsets) \<Rightarrow>
          getRecordSetsForZones c
            (st1\<lparr>heap := (heap st1)[r := (heap st1 ! r)\<lparr>recordSets := Some rsets\<rparr>]\<rparr>) rs)"

subsection \<open>Finding the matching records\<close>

text \<open>
  \<^verbatim>\<open>_evaluateRecord(recordValue)\<close>. The pattern is compiled at every call, so a pattern
  that is rejected fails at the first value that is evaluated, and not before.
\<close>

definition evaluateRecord :: "regexp \<Rightarrow> options \<Rightarrow> string \<Rightarrow> error + bool" where
  "evaluateRecord RegExp opts v =
     (if opt_match opts = ''regex'' then
        (case RegExp (opt_record opts) of
           Inl e \<Rightarrow> Inl e
         | Inr test \<Rightarrow> Inr (test v))
      else Inr (v = opt_record opts @ ''.'' \<or> v = opt_record opts))"

definition createResultEntry :: "hosted_zone \<Rightarrow> string \<Rightarrow> string \<Rightarrow> string \<Rightarrow> result_row" where
  "createResultEntry hostedZone rtype rname rvalue =
     \<lparr>hostedZoneId = zone_Id hostedZone,
      hostedZoneName = zone_Name hostedZone,
      recordType = rtype,
      recordName = rname,
      recordValue = rvalue\<rparr>"

text \<open>
  The loop over \<^verbatim>\<open>recordSet.ResourceRecords\<close>; the last argument is
  \<^verbatim>\<open>matchingRecords\<close>, and \<^verbatim>\<open>push\<close> appends to it.
\<close>

fun find_in_records ::
  "regexp \<Rightarrow> options \<Rightarrow> hosted_zone \<Rightarrow> resource_record_set \<Rightarrow> resource_record list \<Rightarrow> result_row list
   \<Rightarrow> error + result_row list" where
  "find_in_records RegExp opts z rs [] acc = Inr acc"
| "find_in_records RegExp opts z rs (rr # rest) acc =
     (case evaluateRecord RegExp opts (Value rr) of
        Inl e \<Rightarrow> Inl e
      | Inr m \<Rightarrow>
          find_in_records RegExp opts z rs rest
            (if m then acc @ [createResultEntry z (Type rs) (Name rs) (Value rr)] else acc))"

text \<open>
  The loop over \<^verbatim>\<open>hostedZone.recordSets\<close>. The last branch only writes a log line,
  which is not modelled.
\<close>

fun find_in_record_sets ::
  "regexp \<Rightarrow> options \<Rightarrow> hosted_zone \<Rightarrow> resource_record_set list \<Rightarrow> result_row list
   \<Rightarrow> error + result_row list" where
  "find_in_record_sets RegExp opts z [] acc = Inr acc"
| "find_in_record_sets RegExp opts z (rs # rest) acc =
     (case AliasTarget rs of
        Some a \<Rightarrow>
          (case evaluateRecord RegExp opts (DNSName a) of
             Inl e \<Rightarrow> Inl e
           | Inr m \<Rightarrow>
               find_in_record_sets RegExp opts z rest
                 (if m then acc @ [createResultEntry z ''Alias'' (Name rs) (DNSName a)] else acc))
      | None \<Rightarrow>
          (case ResourceRecords rs of
             Some rrs \<Rightarrow>
               (case find_in_records RegExp opts z rs rrs acc of
                  Inl e \<Rightarrow> Inl e
                | Inr acc1 \<Rightarrow> find_in_record_sets RegExp opts z rest acc1)
           | None \<Rightarrow> find_in_record_sets RegExp opts z rest acc))"

text \<open>The loop over \<^verbatim>\<open>hostedZones.values()\<close>.\<close>

fun find_in_zones ::
  "regexp \<Rightarrow> options \<Rightarrow> hosted_zone list \<Rightarrow> nat list \<Rightarrow> result_row list \<Rightarrow> error + result_row list" where
  "find_in_zones RegExp opts h [] acc = Inr acc"
| "find_in_zones RegExp opts h (r # rest) acc =
     (case recordSets (h ! r) of
        None \<Rightarrow> Inl TypeError
      | Some rsets \<Rightarrow>
          (case find_in_record_sets RegExp opts (h ! r) rsets acc of
             Inl e \<Rightarrow> Inl e
           | Inr acc1 \<Rightarrow> find_in_zones RegExp opts h rest acc1))"

definition findRecord ::
  "regexp \<Rightarrow> options \<Rightarrow> hosted_zone list \<Rightarrow> nat list \<Rightarrow> error + result_row list" where
  "findRecord RegExp opts h hostedZones = find_in_zones RegExp opts h hostedZones []"

subsection \<open>The run\<close>

text \<open>
  \<^verbatim>\<open>run()\<close> up to the call of \<^verbatim>\<open>_printResult\<close>: the result is the rows handed to the
  printer, or the error that ended the run before anything was printed.
\<close>

definition run ::
  "client \<Rightarrow> regexp \<Rightarrow> options \<Rightarrow> (state \<times> (error + result_row list)) option" where
  "run c RegExp opts =
     (case listHostedZones c \<lparr>heap = [], sent = []\<rparr> [] None of
        None \<Rightarrow> None
      | Some (st, Inl e) \<Rightarrow> Some (st, Inl e)
      | Some (st, Inr hostedZones) \<Rightarrow>
          (case getRecordSetsForZones c st hostedZones of
             None \<Rightarrow> None
           | Some (st1, Inl e) \<Rightarrow> Some (st1, Inl e)
           | Some (st1, Inr u) \<Rightarrow> Some (st1, findRecord RegExp opts (heap st1) hostedZones)))"

section \<open>Describing the service and the result\<close>

text \<open>
  \<open>zone_pages c m ps\<close>: asked for the zones from marker \<open>m\<close> on, and then for the page
  after each truncated page, the service answers with the pages \<open>ps\<close>, the last of
  which is not truncated. \<open>zone_pages_fail c m ps e\<close>: it answers with the truncated
  pages \<open>ps\<close> and then fails with \<open>e\<close>.
\<close>

fun zone_pages :: "client \<Rightarrow> string option \<Rightarrow> list_hosted_zones_response list \<Rightarrow> bool" where
  "zone_pages c m [] = False"
| "zone_pages c m [p] = (send_ListHostedZones c m = Inr p \<and> \<not> IsTruncated p)"
| "zone_pages c m (p # q # ps) =
     (send_ListHostedZones c m = Inr p \<and> IsTruncated p \<and> zone_pages c (NextMarker p) (q # ps))"

fun zone_pages_fail ::
  "client \<Rightarrow> string option \<Rightarrow> list_hosted_zones_response list \<Rightarrow> error \<Rightarrow> bool" where
  "zone_pages_fail c m [] e = (send_ListHostedZones c m = Inl e)"
| "zone_pages_fail c m (p # ps) e =
     (send_ListHostedZones c m = Inr p \<and> IsTruncated p \<and> zone_pages_fail c (NextMarker p) ps e)"

text \<open>The requests that follow a first request with marker \<open>m\<close> through the pages.\<close>

definition zone_requests :: "string option \<Rightarrow> list_hosted_zones_response list \<Rightarrow> command list" where
  "zone_requests m ps = ListHostedZonesCommand m # map (\<lambda>p. ListHostedZonesCommand (NextMarker p)) ps"

text \<open>The same for the record sets of the zone with id \<open>zid\<close>.\<close>

definition rr_params :: "string \<Rightarrow> start_record option \<Rightarrow> list_resource_record_sets_params" where
  "rr_params zid start =
     \<lparr>HostedZoneId = zid,
      StartRecordName = Option.bind start sr_name,
      StartRecordType = Option.bind start sr_type,
      StartRecordIdentifier = Option.bind start sr_identifier\<rparr>"

definition next_start :: "list_resource_record_sets_response \<Rightarrow> start_record option" where
  "next_start p =
     Some \<lparr>sr_name = NextRecordName p, sr_type = NextRecordType p,
           sr_identifier = NextRecordIdentifier p\<rparr>"

fun rr_pages ::
  "client \<Rightarrow> string \<Rightarrow> start_record option \<Rightarrow> list_resource_record_sets_response list \<Rightarrow> bool"
where
  "rr_pages c zid start [] = False"
| "rr_pages c zid start [p] =
     (send_ListResourceRecordSets c (rr_params zid start) = Inr p \<and> \<not> IsTruncatedRR p)"
| "rr_pages c zid start (p # q # ps) =
     (send_ListResourceRecordSets c (rr_params zid start) = Inr p \<and> IsTruncatedRR p \<and>
      rr_pages c zid (next_start p) (q # ps))"

fun rr_pages_fail ::
  "client \<Rightarrow> string \<Rightarrow> start_record option \<Rightarrow> list_resource_record_sets_response list \<Rightarrow> error
   \<Rightarrow> bool"
where
  "rr_pages_fail c zid start [] e = (send_ListResourceRecordSets c (rr_params zid start) = Inl e)"
| "rr_pages_fail c zid start (p # ps) e =
     (send_ListResourceRecordSets c (rr_params zid start) = Inr p \<and> IsTruncatedRR p \<and>
      rr_pages_fail c zid (next_start p) ps e)"

definition rr_requests ::
  "string \<Rightarrow> start_record option \<Rightarrow> list_resource_record_sets_response list \<Rightarrow> command list" where
  "rr_requests zid start ps =
     ListResourceRecordSetsCommand (rr_params zid start) #
     map (\<lambda>p. ListResourceRecordSetsCommand (rr_params zid (next_start p))) ps"

text \<open>A zone as \<^verbatim>\<open>_listHostedZones\<close> stores it.\<close>

definition stored_zone :: "hosted_zone \<Rightarrow> hosted_zone" where
  "stored_zone z = z\<lparr>zone_Id := split_pop (zone_Id z)\<rparr>"

text \<open>
  The rows of one record set, written as a list expression: \<open>matches\<close> is the outcome of
  \<open>evaluateRecord\<close> when it returns, and \<open>evaluable\<close> says that it does (the target is
  compared by equality, or the pattern is one that \<^verbatim>\<open>RegExp\<close> accepts).
\<close>

definition evaluable :: "regexp \<Rightarrow> options \<Rightarrow> bool" where
  "evaluable RegExp opts =
     (opt_match opts = ''regex'' \<longrightarrow>
        (case RegExp (opt_record opts) of Inl e \<Rightarrow> False | Inr test \<Rightarrow> True))"

definition matches :: "regexp \<Rightarrow> options \<Rightarrow> string \<Rightarrow> bool" where
  "matches RegExp opts v = (evaluateRecord RegExp opts v = Inr True)"

definition rows_of_record_set ::
  "regexp \<Rightarrow> options \<Rightarrow> hosted_zone \<Rightarrow> resource_record_set \<Rightarrow> result_row list" where
  "rows_of_record_set RegExp opts z rs =
     (case AliasTarget rs of
        Some a \<Rightarrow>
          if matches RegExp opts (DNSName a) then [createResultEntry z ''Alias'' (Name rs) (DNSName a)]
          else []
      | None \<Rightarrow>
          (case ResourceRecords rs of
             Some rrs \<Rightarrow>
               map (\<lambda>rr. createResultEntry z (Type rs) (Name rs) (Value rr))
                 (filter (\<lambda>rr. matches RegExp opts (Value rr)) rrs)
           | None \<Rightarrow> []))"

definition rows_of_zone ::
  "regexp \<Rightarrow> options \<Rightarrow> hosted_zone \<Rightarrow> resource_record_set list \<Rightarrow> result_row list" where
  "rows_of_zone RegExp opts z rsets = concat (map (rows_of_record_set RegExp opts z) rsets)"

text \<open>
  What \<^verbatim>\<open>_getRecordSetsForZones\<close> leaves in the store: \<open>attach h refs xs\<close> attaches the
  lists \<open>xs\<close> to the objects \<open>refs\<close> in turn. \<open>listed ps\<close> is the record sets of the
  pages \<open>ps\<close> in response order, \<open>all_rr_requests\<close> the requests for all the zones, and
  \<open>zones_of zps\<close> the zones of the pages \<open>zps\<close> as they are stored.
\<close>

fun attach :: "hosted_zone list \<Rightarrow> nat list \<Rightarrow> resource_record_set list list \<Rightarrow> hosted_zone list"
where
  "attach h (r # rs) (x # xs) = attach (h[r := (h ! r)\<lparr>recordSets := Some x\<rparr>]) rs xs"
| "attach h rs xs = h"

definition listed :: "list_resource_record_sets_response list \<Rightarrow> resource_record_set list" where
  "listed ps = concat (map ResourceRecordSets ps)"

definition all_rr_requests ::
  "hosted_zone list \<Rightarrow> nat list \<Rightarrow> list_resource_record_sets_response list list \<Rightarrow> command list"
where
  "all_rr_requests h refs pss =
     concat (map2 (\<lambda>r ps. rr_requests (zone_Id (h ! r)) None (butlast ps)) refs pss)"

definition zones_of :: "list_hosted_zones_response list \<Rightarrow> hosted_zone list" where
  "zones_of zps = map stored_zone (concat (map HostedZones zps))"

subsection \<open>Example services\<close>

text \<open>Zones, pages and record sets for the examples below.\<close>

definition raw_zone :: "string \<Rightarrow> string \<Rightarrow> hosted_zone" where
  "raw_zone i n = \<lparr>zone_Id = i, zone_Name = n, recordSets = None\<rparr>"

definition zone_page :: "hosted_zone list \<Rightarrow> string option \<Rightarrow> list_hosted_zones_response" where
  "zone_page zs next = \<lparr>HostedZones = zs, IsTruncated = (next \<noteq> None), NextMarker = next\<rparr>"

definition rr_page ::
  "resource_record_set list \<Rightarrow> start_record option \<Rightarrow> list_resource_record_sets_response" where
  "rr_page rsets next =
     \<lparr>ResourceRecordSets = rsets, IsTruncatedRR = (next \<noteq> None),
      NextRecordName = Option.bind next sr_name,
      NextRecordType = Option.bind next sr_type,
      NextRecordIdentifier = Option.bind next sr_identifier\<rparr>"

definition alias_set :: "string \<Rightarrow> string \<Rightarrow> string \<Rightarrow> resource_record_set" where
  "alias_set n t target =
     \<lparr>Name = n, Type = t, AliasTarget = Some \<lparr>DNSName = target\<rparr>, ResourceRecords = None\<rparr>"

definition literal_set :: "string \<Rightarrow> string \<Rightarrow> string list \<Rightarrow> resource_record_set" where
  "literal_set n t vs =
     \<lparr>Name = n, Type = t, AliasTarget = None,
      ResourceRecords = Some (map (\<lambda>v. \<lparr>Value = v\<rparr>) vs)\<rparr>"

definition empty_set :: "string \<Rightarrow> string \<Rightarrow> resource_record_set" where
  "empty_set n t = \<lparr>Name = n, Type = t, AliasTarget = None, ResourceRecords = None\<rparr>"

text \<open>
  The examples search by equality, where \<^verbatim>\<open>RegExp\<close> is not called; they are stated with
  this stand-in, which accepts no pattern.
\<close>

definition no_RegExp :: regexp where
  "no_RegExp p = Inl SyntaxError"

text \<open>A service that returns the same zone on both pages of the zone listing.\<close>

definition dup_client :: client where
  "dup_client =
     \<lparr>send_ListHostedZones = (\<lambda>m.
        if m = None then Inr (zone_page [raw_zone ''/hostedzone/Z1'' ''example.com.''] (Some ''m1''))
        else if m = Some ''m1'' then Inr (zone_page [raw_zone ''/hostedzone/Z1'' ''example.com.''] None)
        else Inl (ApiError ''InvalidInput'')),
      send_ListResourceRecordSets = (\<lambda>p. Inl (ApiError ''NoSuchHostedZone''))\<rparr>"

text \<open>The start record made of a name and a type.\<close>

definition start_at :: "string \<Rightarrow> string \<Rightarrow> start_record option" where
  "start_at n t = Some \<lparr>sr_name = Some n, sr_type = Some t, sr_identifier = None\<rparr>"

text \<open>
  A service with two zones on two pages; the record sets of the first zone come on two
  pages, those of the second on one.
\<close>

definition two_zone_client :: client where
  "two_zone_client =
     \<lparr>send_ListHostedZones = (\<lambda>m.
        if m = None then Inr (zone_page [raw_zone ''/hostedzone/Z1'' ''example.com.''] (Some ''m1''))
        else if m = Some ''m1'' then Inr (zone_page [raw_zone ''/hostedzone/Z2'' ''example.org.''] None)
        else Inl (ApiError ''InvalidInput'')),
      send_ListResourceRecordSets = (\<lambda>p.
        if p = rr_params ''Z1'' None then
          Inr (rr_page [alias_set ''www.example.com.'' ''A'' ''lb.example.net.'']
                 (start_at ''foo.example.com.'' ''NS''))
        else if p = rr_params ''Z1'' (start_at ''foo.example.com.'' ''NS'') then
          Inr (rr_page [literal_set ''foo.example.com.'' ''NS''
                          [''lb.example.net'', ''ns2.example.net.'', ''lb.example.net.''],
                        empty_set ''odd.example.com.'' ''TXT''] None)
        else if p = rr_params ''Z2'' None then
          Inr (rr_page [literal_set ''bar.example.org.'' ''CNAME'' [''lb.example.net.'']] None)
        else Inl (ApiError ''NoSuchHostedZone''))\<rparr>"

text \<open>A service that fails on the second page of the zone listing.\<close>

definition zones_fail_client :: client where
  "zones_fail_client =
     \<lparr>send_ListHostedZones = (\<lambda>m.
        if m = None then Inr (zone_page [raw_zone ''/hostedzone/Z1'' ''example.com.''] (Some ''m1''))
        else Inl (ApiError ''Throttling'')),
      send_ListResourceRecordSets = (\<lambda>p. Inl (ApiError ''NoSuchHostedZone''))\<rparr>"

text \<open>
  A service that lists both zones and the record sets of the first, and fails on the
  second page of the record sets of the second zone.
\<close>

definition rr_fail_client :: client where
  "rr_fail_client =
     \<lparr>send_ListHostedZones = send_ListHostedZones two_zone_client,
      send_ListResourceRecordSets = (\<lambda>p.
        if p = rr_params ''Z1'' None then
          Inr (rr_page [literal_set ''foo.example.com.'' ''A'' [''5.6.7.8'']] None)
        else if p = rr_params ''Z2'' None then
          Inr (rr_page [literal_set ''bar.example.org.'' ''A'' [''5.6.7.8'']]
                 (start_at ''baz.example.org.'' ''A''))
        else Inl (ApiError ''Throttling''))\<rparr>"

section \<open>The pieces of an identifier\<close>

lemma split_not_Nil: "split sep s \<noteq> []"
  by (induction s) (auto split: list.splits)

lemma split_pieces: "w \<in> set (split sep s) \<Longrightarrow> sep \<notin> set w"
  by (induction s arbitrary: w) (auto split: list.splits if_splits)

lemma split_bare: "sep \<notin> set s \<Longrightarrow> split sep s = [s]"
  by (induction s) auto

lemma split_pop_bare: "CHR ''/'' \<notin> set s \<Longrightarrow> split_pop s = s"
  by (simp add: split_pop_def split_bare)

lemma split_pop_no_slash: "CHR ''/'' \<notin> set (split_pop s)"
  unfolding split_pop_def using split_pieces [of _ "CHR ''/''" s] split_not_Nil [of "CHR ''/''" s]
  by (meson last_in_set)

lemma split_pop_idem: "split_pop (split_pop s) = split_pop s"
  by (simp add: split_pop_bare split_pop_no_slash)

section \<open>Listing the zones and the record sets\<close>

lemma add_zones_fresh:
  "\<forall>r\<in>set S. r < length h0 \<Longrightarrow>
   add_zones [length h0 ..< length h0 + length zs] (h0 @ zs, S) =
     (h0 @ map stored_zone zs, S @ [length h0 ..< length h0 + length zs])"
proof (induction zs arbitrary: h0 S)
  case Nil
  then show ?case by simp
next
  case (Cons z zs)
  have upt: "[length h0 ..< length h0 + length (z # zs)] =
             length h0 # [length (h0 @ [stored_zone z]) ..< length (h0 @ [stored_zone z]) + length zs]"
    using upt_conv_Cons [of "length h0" "length h0 + length (z # zs)"] by simp
  have fresh: "length h0 \<notin> set S"
    using Cons.prems by auto
  have inv: "\<forall>r\<in>set (S @ [length h0]). r < length (h0 @ [stored_zone z])"
    using Cons.prems by auto
  have "add_zones [length h0 ..< length h0 + length (z # zs)] (h0 @ z # zs, S) =
        add_zones [length (h0 @ [stored_zone z]) ..< length (h0 @ [stored_zone z]) + length zs]
          ((h0 @ [stored_zone z]) @ zs, S @ [length h0])"
    unfolding upt using fresh by (simp add: Set_add_def stored_zone_def)
  also have "\<dots> = ((h0 @ [stored_zone z]) @ map stored_zone zs,
                    (S @ [length h0]) @
                    [length (h0 @ [stored_zone z]) ..< length (h0 @ [stored_zone z]) + length zs])"
    using Cons.IH [OF inv] .
  also have "\<dots> = (h0 @ map stored_zone (z # zs), S @ [length h0 ..< length h0 + length (z # zs)])"
    unfolding upt by simp
  finally show ?case .
qed

lemma upt_append_add: "[a ..< a + n] @ [a + n ..< a + n + k] = [a ..< a + (n + k)]"
  using upt_add_eq_append [of a "a + n" k] by (simp add: add.assoc)

lemma listHostedZones_step:
  assumes "send_ListHostedZones c m = Inr p" and "\<forall>r\<in>set S. r < length (heap st)"
  shows "listHostedZones c st S m =
    (if IsTruncated p
     then listHostedZones c
        (st\<lparr>sent := sent st @ [ListHostedZonesCommand m],
            heap := heap st @ map stored_zone (HostedZones p)\<rparr>)
        (S @ [length (heap st) ..< length (heap st) + length (HostedZones p)]) (NextMarker p)
     else Some (st\<lparr>sent := sent st @ [ListHostedZonesCommand m],
                   heap := heap st @ map stored_zone (HostedZones p)\<rparr>,
                Inr (S @ [length (heap st) ..< length (heap st) + length (HostedZones p)])))"
  using assms
  by (subst listHostedZones.simps) (simp add: alloc_def add_zones_fresh Let_def)

lemma listHostedZones_fails:
  assumes "send_ListHostedZones c m = Inl e"
  shows "listHostedZones c st S m =
         Some (st\<lparr>sent := sent st @ [ListHostedZonesCommand m]\<rparr>, Inl e)"
  using assms by (subst listHostedZones.simps) (simp add: Let_def)

lemma listHostedZones_pages:
  "zone_pages c m ps \<Longrightarrow> \<forall>r\<in>set S. r < length (heap st) \<Longrightarrow>
   listHostedZones c st S m =
     Some (st\<lparr>sent := sent st @ zone_requests m (butlast ps),
              heap := heap st @ map stored_zone (concat (map HostedZones ps))\<rparr>,
           Inr (S @ [length (heap st) ..<
                     length (heap st) + length (concat (map HostedZones ps))]))"
proof (induction c m ps arbitrary: st S rule: zone_pages.induct)
  case (1 c m)
  then show ?case by simp
next
  case (2 c m p)
  then show ?case
    by (simp add: listHostedZones_step zone_requests_def)
next
  case (3 c m p q ps)
  let ?st = "st\<lparr>sent := sent st @ [ListHostedZonesCommand m],
                  heap := heap st @ map stored_zone (HostedZones p)\<rparr>"
  let ?S = "S @ [length (heap st) ..< length (heap st) + length (HostedZones p)]"
  from "3.prems" have send: "send_ListHostedZones c m = Inr p" and tr: "IsTruncated p"
    and rest: "zone_pages c (NextMarker p) (q # ps)"
    by simp_all
  have inv: "\<forall>r\<in>set ?S. r < length (heap ?st)"
    using "3.prems"(2) by auto
  have "listHostedZones c st S m = listHostedZones c ?st ?S (NextMarker p)"
    using listHostedZones_step [OF send "3.prems"(2)] tr by simp
  also note "3.IH" [OF rest inv]
  finally show ?case
    by (simp add: zone_requests_def upt_append_add)
qed

lemma listHostedZones_pages_fail:
  "zone_pages_fail c m ps e \<Longrightarrow> \<forall>r\<in>set S. r < length (heap st) \<Longrightarrow>
   listHostedZones c st S m =
     Some (st\<lparr>sent := sent st @ zone_requests m ps,
              heap := heap st @ map stored_zone (concat (map HostedZones ps))\<rparr>,
           Inl e)"
proof (induction ps arbitrary: st S m)
  case Nil
  then show ?case
    by (simp add: listHostedZones_fails zone_requests_def)
next
  case (Cons p ps)
  let ?st = "st\<lparr>sent := sent st @ [ListHostedZonesCommand m],
                  heap := heap st @ map stored_zone (HostedZones p)\<rparr>"
  let ?S = "S @ [length (heap st) ..< length (heap st) + length (HostedZones p)]"
  from Cons.prems have send: "send_ListHostedZones c m = Inr p" and tr: "IsTruncated p"
    and rest: "zone_pages_fail c (NextMarker p) ps e"
    by simp_all
  have inv: "\<forall>r\<in>set ?S. r < length (heap ?st)"
    using Cons.prems(2) by auto
  have "listHostedZones c st S m = listHostedZones c ?st ?S (NextMarker p)"
    using listHostedZones_step [OF send Cons.prems(2)] tr by simp
  also note Cons.IH [OF rest inv]
  finally show ?case
    by (simp add: zone_requests_def)
qed

lemma getRecordSetsForZone_step:
  assumes "send_ListResourceRecordSets c (rr_params (zone_Id (heap st ! r)) start) = Inr p"
  shows "getRecordSetsForZone c st r acc start =
    (if IsTruncatedRR p
     then getRecordSetsForZone c
        (st\<lparr>sent := sent st @
               [ListResourceRecordSetsCommand (rr_params (zone_Id (heap st ! r)) start)]\<rparr>)
        r (acc @ ResourceRecordSets p) (next_start p)
     else Some (st\<lparr>sent := sent st @
                  [ListResourceRecordSetsCommand (rr_params (zone_Id (heap st ! r)) start)]\<rparr>,
                Inr (acc @ ResourceRecordSets p)))"
  using assms
  by (subst getRecordSetsForZone.simps) (simp add: Let_def rr_params_def next_start_def)

lemma getRecordSetsForZone_fails:
  assumes "send_ListResourceRecordSets c (rr_params (zone_Id (heap st ! r)) start) = Inl e"
  shows "getRecordSetsForZone c st r acc start =
     Some (st\<lparr>sent := sent st @
             [ListResourceRecordSetsCommand (rr_params (zone_Id (heap st ! r)) start)]\<rparr>,
           Inl e)"
  using assms
  by (subst getRecordSetsForZone.simps) (simp add: Let_def rr_params_def)

lemma getRecordSetsForZone_pages:
  "rr_pages c zid start ps \<Longrightarrow> zone_Id (heap st ! r) = zid \<Longrightarrow>
   getRecordSetsForZone c st r acc start =
     Some (st\<lparr>sent := sent st @ rr_requests zid start (butlast ps)\<rparr>,
           Inr (acc @ concat (map ResourceRecordSets ps)))"
proof (induction c zid start ps arbitrary: st acc rule: rr_pages.induct)
  case (1 c zid start)
  then show ?case by simp
next
  case (2 c zid start p)
  then show ?case
    by (simp add: getRecordSetsForZone_step rr_requests_def)
next
  case (3 c zid start p q ps)
  let ?st = "st\<lparr>sent := sent st @ [ListResourceRecordSetsCommand (rr_params zid start)]\<rparr>"
  from "3.prems" have send: "send_ListResourceRecordSets c (rr_params (zone_Id (heap st ! r)) start) = Inr p"
    and tr: "IsTruncatedRR p" and rest: "rr_pages c zid (next_start p) (q # ps)"
    by simp_all
  have zid: "zone_Id (heap ?st ! r) = zid"
    using "3.prems"(2) by simp
  have "getRecordSetsForZone c st r acc start =
        getRecordSetsForZone c ?st r (acc @ ResourceRecordSets p) (next_start p)"
    using getRecordSetsForZone_step [OF send] tr "3.prems"(2) by simp
  also note "3.IH" [OF rest zid]
  finally show ?case
    by (simp add: rr_requests_def)
qed

lemma getRecordSetsForZone_pages_fail:
  "rr_pages_fail c zid start ps e \<Longrightarrow> zone_Id (heap st ! r) = zid \<Longrightarrow>
   getRecordSetsForZone c st r acc start =
     Some (st\<lparr>sent := sent st @ rr_requests zid start ps\<rparr>, Inl e)"
proof (induction ps arbitrary: st acc start)
  case Nil
  then show ?case
    by (simp add: getRecordSetsForZone_fails rr_requests_def)
next
  case (Cons p ps)
  let ?st = "st\<lparr>sent := sent st @ [ListResourceRecordSetsCommand (rr_params zid start)]\<rparr>"
  from Cons.prems have send: "send_ListResourceRecordSets c (rr_params (zone_Id (heap st ! r)) start) = Inr p"
    and tr: "IsTruncatedRR p" and rest: "rr_pages_fail c zid (next_start p) ps e"
    by simp_all
  have zid: "zone_Id (heap ?st ! r) = zid"
    using Cons.prems(2) by simp
  have "getRecordSetsForZone c st r acc start =
        getRecordSetsForZone c ?st r (acc @ ResourceRecordSets p) (next_start p)"
    using getRecordSetsForZone_step [OF send] tr Cons.prems(2) by simp
  also note Cons.IH [OF rest zid]
  finally show ?case
    by (simp add: rr_requests_def)
qed

lemma zone_Id_attach_one:
  "zone_Id (h[r := (h ! r)\<lparr>recordSets := x\<rparr>] ! i) = zone_Id (h ! i)"
proof (cases "r < length h")
  case True
  then show ?thesis by (cases "i = r") simp_all
next
  case False
  then show ?thesis by (simp add: list_update_beyond not_less)
qed

lemma getRecordSetsForZones_pages:
  "list_all2 (\<lambda>r ps. rr_pages c (zone_Id (heap st ! r)) None ps) refs pss \<Longrightarrow>
   getRecordSetsForZones c st refs =
     Some (st\<lparr>sent := sent st @ all_rr_requests (heap st) refs pss,
              heap := attach (heap st) refs (map listed pss)\<rparr>,
           Inr ())"
proof (induction refs arbitrary: st pss)
  case Nil
  then show ?case by (simp add: all_rr_requests_def)
next
  case (Cons r refs)
  from Cons.prems obtain ps pss' where pss: "pss = ps # pss'"
    and first: "rr_pages c (zone_Id (heap st ! r)) None ps"
    and others: "list_all2 (\<lambda>r ps. rr_pages c (zone_Id (heap st ! r)) None ps) refs pss'"
    by (auto simp: list_all2_Cons1)
  let ?st1 = "st\<lparr>sent := sent st @ rr_requests (zone_Id (heap st ! r)) None (butlast ps)\<rparr>"
  let ?st2 = "?st1\<lparr>heap := (heap ?st1)[r := (heap ?st1 ! r)\<lparr>recordSets := Some (listed ps)\<rparr>]\<rparr>"
  have one: "getRecordSetsForZone c st r [] None = Some (?st1, Inr (listed ps))"
    unfolding listed_def
    using getRecordSetsForZone_pages [OF first refl, of "[]"] by (simp only: append_Nil)
  have rest: "list_all2 (\<lambda>r ps. rr_pages c (zone_Id (heap ?st2 ! r)) None ps) refs pss'"
    using others by (simp add: zone_Id_attach_one)
  have ids: "all_rr_requests (heap ?st2) refs pss' = all_rr_requests (heap st) refs pss'"
    by (simp add: all_rr_requests_def zone_Id_attach_one)
  have "getRecordSetsForZones c st (r # refs) = getRecordSetsForZones c ?st2 refs"
    by (simp add: one)
  also note Cons.IH [OF rest]
  finally show ?case
    unfolding ids pss by (simp add: all_rr_requests_def)
qed

lemma getRecordSetsForZones_append:
  "getRecordSetsForZones c st (xs @ ys) =
     (case getRecordSetsForZones c st xs of
        None \<Rightarrow> None
      | Some (st1, Inl e) \<Rightarrow> Some (st1, Inl e)
      | Some (st1, Inr u) \<Rightarrow> getRecordSetsForZones c st1 ys)"
  by (induction xs arbitrary: st) (auto split: option.splits sum.splits prod.splits)

lemma zone_Id_attach: "zone_Id (attach h refs xs ! i) = zone_Id (h ! i)"
  by (induction h refs xs rule: attach.induct) (simp_all add: zone_Id_attach_one)

lemma getRecordSetsForZones_pages_fail:
  assumes ok: "list_all2 (\<lambda>r ps. rr_pages c (zone_Id (heap st ! r)) None ps) pre pss"
    and bad: "rr_pages_fail c (zone_Id (heap st ! r)) None fps e"
  shows "getRecordSetsForZones c st (pre @ r # post) =
     Some (st\<lparr>sent := sent st @ all_rr_requests (heap st) pre pss @
                rr_requests (zone_Id (heap st ! r)) None fps,
              heap := attach (heap st) pre (map listed pss)\<rparr>,
           Inl e)"
proof -
  let ?st1 = "st\<lparr>sent := sent st @ all_rr_requests (heap st) pre pss,
                   heap := attach (heap st) pre (map listed pss)\<rparr>"
  have zid: "zone_Id (heap ?st1 ! r) = zone_Id (heap st ! r)"
    by (simp add: zone_Id_attach)
  have "getRecordSetsForZone c ?st1 r [] None =
        Some (?st1\<lparr>sent := sent ?st1 @ rr_requests (zone_Id (heap st ! r)) None fps\<rparr>, Inl e)"
    using getRecordSetsForZone_pages_fail [OF bad zid] .
  then show ?thesis
    by (simp add: getRecordSetsForZones_append getRecordSetsForZones_pages [OF ok])
qed

section \<open>The rows of a search\<close>

lemma evaluateRecord_matches:
  "evaluable RegExp opts \<Longrightarrow> evaluateRecord RegExp opts v = Inr (matches RegExp opts v)"
  by (auto simp: evaluable_def matches_def evaluateRecord_def split: sum.splits)

lemma find_in_records_rows:
  "evaluable RegExp opts \<Longrightarrow>
   find_in_records RegExp opts z rs rrs acc =
     Inr (acc @ map (\<lambda>rr. createResultEntry z (Type rs) (Name rs) (Value rr))
                  (filter (\<lambda>rr. matches RegExp opts (Value rr)) rrs))"
  by (induction rrs arbitrary: acc) (simp_all add: evaluateRecord_matches)

lemma find_in_record_sets_step:
  "evaluable RegExp opts \<Longrightarrow>
   find_in_record_sets RegExp opts z (rs # rest) acc =
     find_in_record_sets RegExp opts z rest (acc @ rows_of_record_set RegExp opts z rs)"
  by (simp add: rows_of_record_set_def evaluateRecord_matches find_in_records_rows
      split: option.splits)

lemma find_in_record_sets_rows:
  "evaluable RegExp opts \<Longrightarrow>
   find_in_record_sets RegExp opts z rsets acc = Inr (acc @ rows_of_zone RegExp opts z rsets)"
proof (induction rsets arbitrary: acc)
  case Nil
  then show ?case by (simp add: rows_of_zone_def)
next
  case (Cons rs rsets)
  have "find_in_record_sets RegExp opts z (rs # rsets) acc =
        find_in_record_sets RegExp opts z rsets (acc @ rows_of_record_set RegExp opts z rs)"
    using Cons.prems by (rule find_in_record_sets_step)
  also have "\<dots> = Inr ((acc @ rows_of_record_set RegExp opts z rs) @ rows_of_zone RegExp opts z rsets)"
    using Cons.IH [OF Cons.prems] .
  finally show ?case by (simp add: rows_of_zone_def)
qed

lemma find_in_zones_rows:
  "evaluable RegExp opts \<Longrightarrow> \<forall>r\<in>set refs. recordSets (h ! r) \<noteq> None \<Longrightarrow>
   find_in_zones RegExp opts h refs acc =
     Inr (acc @ concat (map (\<lambda>r. rows_of_zone RegExp opts (h ! r) (the (recordSets (h ! r)))) refs))"
  by (induction refs arbitrary: acc) (auto simp: find_in_record_sets_rows)

lemma rows_of_record_set_recordSets:
  "rows_of_record_set RegExp opts (z\<lparr>recordSets := x\<rparr>) = rows_of_record_set RegExp opts z"
  by (rule ext) (simp add: rows_of_record_set_def createResultEntry_def split: option.splits)

lemma rows_of_zone_recordSets:
  "rows_of_zone RegExp opts (z\<lparr>recordSets := x\<rparr>) rsets = rows_of_zone RegExp opts z rsets"
  by (simp add: rows_of_zone_def rows_of_record_set_recordSets)

lemma attach_fresh:
  "length xs = length h \<Longrightarrow>
   attach (pre @ h) [length pre ..< length pre + length h] xs =
     pre @ map2 (\<lambda>z x. z\<lparr>recordSets := Some x\<rparr>) h xs"
proof (induction h arbitrary: pre xs)
  case Nil
  then show ?case by simp
next
  case (Cons z h)
  then obtain x xs' where xs: "xs = x # xs'" and len: "length xs' = length h"
    by (cases xs) auto
  have upt: "[length pre ..< length pre + length (z # h)] =
             length pre # [length (pre @ [z\<lparr>recordSets := Some x\<rparr>]) ..<
                           length (pre @ [z\<lparr>recordSets := Some x\<rparr>]) + length h]"
    using upt_conv_Cons [of "length pre" "length pre + length (z # h)"] by simp
  have "attach (pre @ z # h) [length pre ..< length pre + length (z # h)] xs =
        attach ((pre @ [z\<lparr>recordSets := Some x\<rparr>]) @ h)
          [length (pre @ [z\<lparr>recordSets := Some x\<rparr>]) ..<
           length (pre @ [z\<lparr>recordSets := Some x\<rparr>]) + length h] xs'"
    unfolding upt xs by simp
  also note Cons.IH [OF len]
  finally show ?case by (simp add: xs)
qed

lemma attach_all:
  "length xs = length h \<Longrightarrow>
   attach h [0 ..< length h] xs = map2 (\<lambda>z x. z\<lparr>recordSets := Some x\<rparr>) h xs"
  using attach_fresh [of xs h "[]"] by simp

lemma list_all2_refs:
  "list_all2 (\<lambda>r y. P (h ! r) y) [0 ..< length h] ys \<longleftrightarrow> list_all2 P h ys"
  by (auto simp: list_all2_conv_all_nth)

lemma map2_refs:
  "length ys = length h \<Longrightarrow> map2 (\<lambda>r y. f (h ! r) y) [0 ..< length h] ys = map2 f h ys"
  by (rule nth_equalityI) simp_all

lemma map_refs: "map (\<lambda>r. f (h ! r)) [0 ..< length h] = map f h"
  by (rule nth_equalityI) simp_all

lemma run_rows:
  assumes zp: "zone_pages c None zps"
    and rp: "list_all2 (\<lambda>z ps. rr_pages c (zone_Id z) None ps) (zones_of zps) pss"
    and ev: "evaluable RegExp opts"
  shows "run c RegExp opts =
     Some (\<lparr>heap = map2 (\<lambda>z ps. z\<lparr>recordSets := Some (listed ps)\<rparr>) (zones_of zps) pss,
            sent = zone_requests None (butlast zps) @
                   concat (map2 (\<lambda>z ps. rr_requests (zone_Id z) None (butlast ps))
                             (zones_of zps) pss)\<rparr>,
           Inr (concat (map2 (\<lambda>z ps. rows_of_zone RegExp opts z (listed ps)) (zones_of zps) pss)))"
proof -
  let ?zs = "zones_of zps"
  let ?n = "length ?zs"
  let ?st1 = "\<lparr>heap = ?zs, sent = zone_requests None (butlast zps)\<rparr>"
  let ?h2 = "map2 (\<lambda>z ps. z\<lparr>recordSets := Some (listed ps)\<rparr>) ?zs pss"
  from rp have len: "length pss = ?n"
    by (simp add: list_all2_lengthD)
  have zones: "listHostedZones c \<lparr>heap = [], sent = []\<rparr> [] None = Some (?st1, Inr [0 ..< ?n])"
    using listHostedZones_pages [OF zp, of "[]" "\<lparr>heap = [], sent = []\<rparr>"]
    by (simp add: zones_of_def)
  have rp': "list_all2 (\<lambda>r ps. rr_pages c (zone_Id (heap ?st1 ! r)) None ps) [0 ..< ?n] pss"
    using rp list_all2_refs [of "\<lambda>z ps. rr_pages c (zone_Id z) None ps" ?zs pss] by simp
  have reqs: "all_rr_requests ?zs [0 ..< ?n] pss =
              concat (map2 (\<lambda>z ps. rr_requests (zone_Id z) None (butlast ps)) ?zs pss)"
    unfolding all_rr_requests_def
    using len map2_refs [of pss ?zs "\<lambda>z ps. rr_requests (zone_Id z) None (butlast ps)"]
    by simp
  have att: "attach ?zs [0 ..< ?n] (map listed pss) = ?h2"
    using len by (simp add: attach_all zip_map2 case_prod_unfold)
  have sets: "getRecordSetsForZones c ?st1 [0 ..< ?n] =
        Some (\<lparr>heap = ?h2,
               sent = zone_requests None (butlast zps) @
                 concat (map2 (\<lambda>z ps. rr_requests (zone_Id z) None (butlast ps)) ?zs pss)\<rparr>,
              Inr ())"
    using getRecordSetsForZones_pages [OF rp'] by (simp add: reqs att)
  have len2: "length ?h2 = ?n"
    using len by simp
  have attached: "\<forall>r\<in>set [0 ..< ?n]. recordSets (?h2 ! r) \<noteq> None"
    using len by simp
  have "findRecord RegExp opts ?h2 [0 ..< ?n] =
        Inr (concat (map (\<lambda>r. rows_of_zone RegExp opts (?h2 ! r) (the (recordSets (?h2 ! r)))) [0 ..< ?n]))"
    unfolding findRecord_def using find_in_zones_rows [OF ev attached, of "[]"] by simp
  also have "map (\<lambda>r. rows_of_zone RegExp opts (?h2 ! r) (the (recordSets (?h2 ! r)))) [0 ..< ?n] =
             map (\<lambda>z. rows_of_zone RegExp opts z (the (recordSets z))) ?h2"
    using map_refs [of "\<lambda>z. rows_of_zone RegExp opts z (the (recordSets z))" ?h2] len2 by simp
  also have "\<dots> = map2 (\<lambda>z ps. rows_of_zone RegExp opts z (listed ps)) ?zs pss"
    by (simp add: rows_of_zone_recordSets case_prod_unfold)
  finally have rows: "findRecord RegExp opts ?h2 [0 ..< ?n] =
        Inr (concat (map2 (\<lambda>z ps. rows_of_zone RegExp opts z (listed ps)) ?zs pss))" .
  show ?thesis
    unfolding run_def by (simp add: zones sets rows)
qed

section \<open>Runs that fail\<close>

lemma run_zones_fail:
  assumes "zone_pages_fail c None zps e"
  shows "run c RegExp opts =
     Some (\<lparr>heap = zones_of zps, sent = zone_requests None zps\<rparr>, Inl e)"
  unfolding run_def
  using listHostedZones_pages_fail [OF assms, of "[]" "\<lparr>heap = [], sent = []\<rparr>"]
  by (simp add: zones_of_def)

lemma upt_split_at:
  "[0 ..< length (pre @ z # post)] =
   [0 ..< length pre] @ length pre # [Suc (length pre) ..< length (pre @ z # post)]"
proof -
  have "[0 ..< length (pre @ z # post)] =
        [0 ..< length pre] @ [length pre ..< length pre + Suc (length post)]"
    using upt_add_eq_append [of 0 "length pre" "Suc (length post)"] by simp
  also have "[length pre ..< length pre + Suc (length post)] =
             length pre # [Suc (length pre) ..< length pre + Suc (length post)]"
    using upt_conv_Cons [of "length pre" "length pre + Suc (length post)"] by simp
  finally show ?thesis by simp
qed

lemma run_rr_fail:
  assumes zp: "zone_pages c None zps"
    and split: "zones_of zps = pre @ z # post"
    and ok: "list_all2 (\<lambda>z ps. rr_pages c (zone_Id z) None ps) pre pss"
    and bad: "rr_pages_fail c (zone_Id z) None fps e"
  shows "\<exists>h. run c RegExp opts =
     Some (\<lparr>heap = h,
            sent = zone_requests None (butlast zps) @
                   concat (map2 (\<lambda>z ps. rr_requests (zone_Id z) None (butlast ps)) pre pss) @
                   rr_requests (zone_Id z) None fps\<rparr>,
           Inl e)"
proof -
  let ?zs = "zones_of zps"
  let ?k = "length pre"
  let ?st1 = "\<lparr>heap = ?zs, sent = zone_requests None (butlast zps)\<rparr>"
  from ok have len: "length pss = ?k"
    by (simp add: list_all2_lengthD)
  have zones: "listHostedZones c \<lparr>heap = [], sent = []\<rparr> [] None =
               Some (?st1, Inr [0 ..< length ?zs])"
    using listHostedZones_pages [OF zp, of "[]" "\<lparr>heap = [], sent = []\<rparr>"]
    by (simp add: zones_of_def)
  have refs: "[0 ..< length ?zs] = [0 ..< ?k] @ ?k # [Suc ?k ..< length ?zs]"
    unfolding split by (rule upt_split_at)
  have ok': "list_all2 (\<lambda>r ps. rr_pages c (zone_Id (heap ?st1 ! r)) None ps) [0 ..< ?k] pss"
    using ok by (simp add: list_all2_conv_all_nth split nth_append)
  have bad': "rr_pages_fail c (zone_Id (heap ?st1 ! ?k)) None fps e"
    using bad by (simp add: split)
  have reqs: "all_rr_requests ?zs [0 ..< ?k] pss =
              concat (map2 (\<lambda>z ps. rr_requests (zone_Id z) None (butlast ps)) pre pss)"
  proof -
    have "map2 (\<lambda>r ps. rr_requests (zone_Id (?zs ! r)) None (butlast ps)) [0 ..< ?k] pss =
          map2 (\<lambda>z ps. rr_requests (zone_Id z) None (butlast ps)) pre pss"
      using len by (intro nth_equalityI) (simp_all add: split nth_append)
    then show ?thesis by (simp add: all_rr_requests_def)
  qed
  have zk: "zone_Id (heap ?st1 ! ?k) = zone_Id z"
    by (simp add: split)
  have "getRecordSetsForZones c ?st1 [0 ..< length ?zs] =
        Some (?st1\<lparr>sent := sent ?st1 @ all_rr_requests (heap ?st1) [0 ..< ?k] pss @
                       rr_requests (zone_Id (heap ?st1 ! ?k)) None fps,
                    heap := attach (heap ?st1) [0 ..< ?k] (map listed pss)\<rparr>,
              Inl e)"
    unfolding refs by (rule getRecordSetsForZones_pages_fail [OF ok' bad'])
  then have sets: "getRecordSetsForZones c ?st1 [0 ..< length ?zs] =
        Some (\<lparr>heap = attach ?zs [0 ..< ?k] (map listed pss),
               sent = zone_requests None (butlast zps) @
                   concat (map2 (\<lambda>z ps. rr_requests (zone_Id z) None (butlast ps)) pre pss) @
                   rr_requests (zone_Id z) None fps\<rparr>,
              Inl e)"
    unfolding zk by (simp add: reqs)
  show ?thesis
    by (intro exI [of _ "attach ?zs [0 ..< ?k] (map listed pss)"])
      (simp add: run_def zones sets)
qed

section \<open>Further facts about the listings and the search\<close>

lemma zone_pages_truncated: "zone_pages c m zps \<Longrightarrow> list_all IsTruncated (butlast zps)"
  by (induction c m zps rule: zone_pages.induct) simp_all

lemma rr_pages_truncated: "rr_pages c zid start ps \<Longrightarrow> list_all IsTruncatedRR (butlast ps)"
  by (induction c zid start ps rule: rr_pages.induct) simp_all

lemma length_attach: "length (attach h refs xs) = length h"
  by (induction h refs xs rule: attach.induct) simp_all

lemma map_zone_Id_attach: "map zone_Id (attach h refs xs) = map zone_Id h"
  by (rule nth_equalityI) (simp_all add: length_attach zone_Id_attach)

lemma find_in_record_sets_append:
  "find_in_record_sets RegExp opts z (xs @ ys) acc =
     (case find_in_record_sets RegExp opts z xs acc of
        Inl e \<Rightarrow> Inl e
      | Inr acc1 \<Rightarrow> find_in_record_sets RegExp opts z ys acc1)"
  by (induction xs arbitrary: acc) (auto split: option.splits sum.splits)

lemma find_in_records_zone:
  "find_in_records RegExp opts (z\<lparr>recordSets := x\<rparr>) rs rrs acc = find_in_records RegExp opts z rs rrs acc"
  by (induction rrs arbitrary: acc) (auto simp: createResultEntry_def split: sum.splits)

lemma find_in_record_sets_zone:
  "find_in_record_sets RegExp opts (z\<lparr>recordSets := x\<rparr>) rsets acc =
   find_in_record_sets RegExp opts z rsets acc"
  by (induction rsets arbitrary: acc)
    (auto simp: createResultEntry_def find_in_records_zone split: option.splits sum.splits)

lemma find_in_record_sets_skip:
  assumes "AliasTarget rs = None" and "ResourceRecords rs = None"
  shows "find_in_record_sets RegExp opts z (pre @ rs # post) acc =
         find_in_record_sets RegExp opts z (pre @ post) acc"
  using assms by (simp add: find_in_record_sets_append split: sum.splits)

lemma find_in_zones_skip:
  assumes "AliasTarget rs = None" and "ResourceRecords rs = None"
    and "recordSets (h ! r) = Some (pre @ rs # post)"
  shows "find_in_zones RegExp opts (h[r := (h ! r)\<lparr>recordSets := Some (pre @ post)\<rparr>]) refs acc =
         find_in_zones RegExp opts h refs acc"
proof (cases "r < length h")
  case False
  then show ?thesis by (simp add: list_update_beyond not_less)
next
  case True
  let ?h = "h[r := (h ! r)\<lparr>recordSets := Some (pre @ post)\<rparr>]"
  show ?thesis
  proof (induction refs arbitrary: acc)
    case Nil
    then show ?case by simp
  next
    case (Cons q refs)
    show ?case
    proof (cases "q = r")
      case same: True
      have "find_in_record_sets RegExp opts (?h ! r) (pre @ post) acc =
            find_in_record_sets RegExp opts (h ! r) (pre @ rs # post) acc"
        using True assms(1,2)
        by (simp add: find_in_record_sets_zone find_in_record_sets_skip)
      then show ?thesis
        using True same assms(3) Cons.IH by (simp split: sum.splits)
    next
      case False
      then have "?h ! q = h ! q" by simp
      then show ?thesis
        using Cons.IH by (simp split: option.splits sum.splits)
    qed
  qed
qed

lemma equality_evaluable: "evaluable RegExp \<lparr>opt_record = t, opt_match = ''equality''\<rparr>"
  by (simp add: evaluable_def)

section \<open>The example services\<close>

lemma two_zone_pages:
  "zone_pages two_zone_client None
     [zone_page [raw_zone ''/hostedzone/Z1'' ''example.com.''] (Some ''m1''),
      zone_page [raw_zone ''/hostedzone/Z2'' ''example.org.''] None]"
  by (simp add: two_zone_client_def zone_page_def)

lemma two_zone_rr_Z1:
  "rr_pages two_zone_client ''Z1'' None
     [rr_page [alias_set ''www.example.com.'' ''A'' ''lb.example.net.'']
        (start_at ''foo.example.com.'' ''NS''),
      rr_page [literal_set ''foo.example.com.'' ''NS''
                 [''lb.example.net'', ''ns2.example.net.'', ''lb.example.net.''],
               empty_set ''odd.example.com.'' ''TXT''] None]"
  by (simp add: two_zone_client_def rr_page_def rr_params_def start_at_def next_start_def)

lemma two_zone_rr_Z2:
  "rr_pages two_zone_client ''Z2'' None
     [rr_page [literal_set ''bar.example.org.'' ''CNAME'' [''lb.example.net.'']] None]"
  by (simp add: two_zone_client_def rr_page_def rr_params_def start_at_def next_start_def)

lemma two_zone_all_rr:
  "list_all2 (\<lambda>z ps. rr_pages two_zone_client (zone_Id z) None ps)
     (zones_of [zone_page [raw_zone ''/hostedzone/Z1'' ''example.com.''] (Some ''m1''),
                zone_page [raw_zone ''/hostedzone/Z2'' ''example.org.''] None])
     [[rr_page [alias_set ''www.example.com.'' ''A'' ''lb.example.net.'']
         (start_at ''foo.example.com.'' ''NS''),
       rr_page [literal_set ''foo.example.com.'' ''NS''
                 [''lb.example.net'', ''ns2.example.net.'', ''lb.example.net.''],
                empty_set ''odd.example.com.'' ''TXT''] None],
      [rr_page [literal_set ''bar.example.org.'' ''CNAME'' [''lb.example.net.'']] None]]"
  using two_zone_rr_Z1 two_zone_rr_Z2
  by (simp add: zones_of_def zone_page_def raw_zone_def stored_zone_def split_pop_def)

lemma zones_fail_pages:
  "zone_pages_fail zones_fail_client None
     [zone_page [raw_zone ''/hostedzone/Z1'' ''example.com.''] (Some ''m1'')]
     (ApiError ''Throttling'')"
  by (simp add: zones_fail_client_def zone_page_def)

lemma rr_fail_pages:
  "zone_pages rr_fail_client None
     [zone_page [raw_zone ''/hostedzone/Z1'' ''example.com.''] (Some ''m1''),
      zone_page [raw_zone ''/hostedzone/Z2'' ''example.org.''] None]"
  "zones_of [zone_page [raw_zone ''/hostedzone/Z1'' ''example.com.''] (Some ''m1''),
             zone_page [raw_zone ''/hostedzone/Z2'' ''example.org.''] None] =
     [\<lparr>zone_Id = ''Z1'', zone_Name = ''example.com.'', recordSets = None\<rparr>] @
     \<lparr>zone_Id = ''Z2'', zone_Name = ''example.org.'', recordSets = None\<rparr> # []"
  "list_all2 (\<lambda>z ps. rr_pages rr_fail_client (zone_Id z) None ps)
     [\<lparr>zone_Id = ''Z1'', zone_Name = ''example.com.'', recordSets = None\<rparr>]
     [[rr_page [literal_set ''foo.example.com.'' ''A'' [''5.6.7.8'']] None]]"
  "rr_pages_fail rr_fail_client
     (zone_Id \<lparr>zone_Id = ''Z2'', zone_Name = ''example.org.'', recordSets = None\<rparr>) None
     [rr_page [literal_set ''bar.example.org.'' ''A'' [''5.6.7.8'']]
        (start_at ''baz.example.org.'' ''A'')]
     (ApiError ''Throttling'')"
  by (simp_all add: rr_fail_client_def two_zone_client_def zone_page_def zones_of_def
      raw_zone_def stored_zone_def split_pop_def rr_page_def rr_params_def start_at_def
      next_start_def)

section \<open>Properties of the program\<close>

subsection \<open>Listing the zones\<close>

text \<open>
  C1, as amended. For a zone listing served on the pages \<open>zps\<close> (one page or more),
  \<^verbatim>\<open>_listHostedZones\<close> returns, and the set it returns holds one member for every zone
  object of every page, in page order and then in the order within the page, each with
  its id reduced to the last token. The members of the set are objects, compared by
  identity, and every response brings new objects: nothing is compared by id, so a zone
  that the service returns on two pages is a member twice.
\<close>

theorem zones_all_pages:
  "zone_pages c None zps \<Longrightarrow>
   listHostedZones c \<lparr>heap = [], sent = []\<rparr> [] None =
     Some (\<lparr>heap = map stored_zone (concat (map HostedZones zps)),
            sent = zone_requests None (butlast zps)\<rparr>,
           Inr [0 ..< length (concat (map HostedZones zps))])"
  using listHostedZones_pages [of c None zps "[]" "\<lparr>heap = [], sent = []\<rparr>"] by simp

theorem zones_all_pages_witness:
  "zone_pages two_zone_client None
     [zone_page [raw_zone ''/hostedzone/Z1'' ''example.com.''] (Some ''m1''),
      zone_page [raw_zone ''/hostedzone/Z2'' ''example.org.''] None] \<and>
   listHostedZones two_zone_client \<lparr>heap = [], sent = []\<rparr> [] None =
     Some (\<lparr>heap = [\<lparr>zone_Id = ''Z1'', zone_Name = ''example.com.'', recordSets = None\<rparr>,
                    \<lparr>zone_Id = ''Z2'', zone_Name = ''example.org.'', recordSets = None\<rparr>],
            sent = [ListHostedZonesCommand None, ListHostedZonesCommand (Some ''m1'')]\<rparr>,
           Inr [0, 1])"
  using zones_all_pages [OF two_zone_pages] two_zone_pages
  by (simp add: zone_page_def raw_zone_def stored_zone_def split_pop_def zone_requests_def
      upt_rec)

text \<open>
  C1 as stated fails: the service \<open>dup_client\<close> returns the zone
  \<^verbatim>\<open>/hostedzone/Z1\<close> on both pages, and the set returned has two members with the id
  \<^verbatim>\<open>Z1\<close>.
\<close>

theorem zones_deduplicated_counterexample:
  "listHostedZones dup_client \<lparr>heap = [], sent = []\<rparr> [] None =
     Some (\<lparr>heap = [\<lparr>zone_Id = ''Z1'', zone_Name = ''example.com.'', recordSets = None\<rparr>,
                    \<lparr>zone_Id = ''Z1'', zone_Name = ''example.com.'', recordSets = None\<rparr>],
            sent = [ListHostedZonesCommand None, ListHostedZonesCommand (Some ''m1'')]\<rparr>,
           Inr [0, 1])"
proof -
  have "zone_pages dup_client None
          [zone_page [raw_zone ''/hostedzone/Z1'' ''example.com.''] (Some ''m1''),
           zone_page [raw_zone ''/hostedzone/Z1'' ''example.com.''] None]"
    by (simp add: dup_client_def zone_page_def)
  from listHostedZones_pages [OF this, of "[]" "\<lparr>heap = [], sent = []\<rparr>"]
  show ?thesis
    by (simp add: zone_page_def raw_zone_def stored_zone_def split_pop_def zone_requests_def
        upt_rec)
qed

text \<open>
  C9. Every zone is stored with the last token of the id the service gave it: the id
  \<^verbatim>\<open>/hostedzone/Z1\<close> is stored as \<^verbatim>\<open>Z1\<close>, the stored id has no \<^verbatim>\<open>/\<close>, and an id
  without \<^verbatim>\<open>/\<close> is stored as it is. This happens when the zone is listed and not
  again: listing the record sets leaves the id of every zone as it was.
\<close>

theorem zone_id_normalised:
  assumes "zone_pages c None zps"
    and "list_all2 (\<lambda>z ps. rr_pages c (zone_Id z) None ps) (zones_of zps) pss"
  shows "(\<exists>st S st1.
            listHostedZones c \<lparr>heap = [], sent = []\<rparr> [] None = Some (st, Inr S) \<and>
            map (\<lambda>r. zone_Id (heap st ! r)) S =
              map (\<lambda>z. split_pop (zone_Id z)) (concat (map HostedZones zps)) \<and>
            getRecordSetsForZones c st S = Some (st1, Inr ()) \<and>
            map zone_Id (heap st1) = map zone_Id (heap st)) \<and>
         split_pop ''/hostedzone/Z1'' = ''Z1'' \<and>
         CHR ''/'' \<notin> set (split_pop s) \<and>
         (CHR ''/'' \<notin> set s \<longrightarrow> split_pop s = s) \<and>
         split_pop (split_pop s) = split_pop s"
proof -
  let ?zs = "zones_of zps"
  let ?st = "\<lparr>heap = ?zs, sent = zone_requests None (butlast zps)\<rparr>"
  let ?S = "[0 ..< length ?zs]"
  have zones: "listHostedZones c \<lparr>heap = [], sent = []\<rparr> [] None = Some (?st, Inr ?S)"
    using listHostedZones_pages [OF assms(1), of "[]" "\<lparr>heap = [], sent = []\<rparr>"]
    by (simp add: zones_of_def)
  have ids: "map (\<lambda>r. zone_Id (heap ?st ! r)) ?S =
             map (\<lambda>z. split_pop (zone_Id z)) (concat (map HostedZones zps))"
    using map_refs [of zone_Id ?zs] by (simp add: zones_of_def stored_zone_def comp_def)
  have rp: "list_all2 (\<lambda>r ps. rr_pages c (zone_Id (heap ?st ! r)) None ps) ?S pss"
    using assms(2) list_all2_refs [of "\<lambda>z ps. rr_pages c (zone_Id z) None ps" ?zs pss] by simp
  let ?st1 = "?st\<lparr>sent := sent ?st @ all_rr_requests (heap ?st) ?S pss,
                    heap := attach (heap ?st) ?S (map listed pss)\<rparr>"
  have sets: "getRecordSetsForZones c ?st ?S = Some (?st1, Inr ())"
    using getRecordSetsForZones_pages [OF rp] .
  have kept: "map zone_Id (heap ?st1) = map zone_Id (heap ?st)"
    by (simp add: map_zone_Id_attach)
  have "\<exists>st S st1.
            listHostedZones c \<lparr>heap = [], sent = []\<rparr> [] None = Some (st, Inr S) \<and>
            map (\<lambda>r. zone_Id (heap st ! r)) S =
              map (\<lambda>z. split_pop (zone_Id z)) (concat (map HostedZones zps)) \<and>
            getRecordSetsForZones c st S = Some (st1, Inr ()) \<and>
            map zone_Id (heap st1) = map zone_Id (heap st)"
    using zones ids sets kept by blast
  moreover have "split_pop ''/hostedzone/Z1'' = ''Z1''"
    by (simp add: split_pop_def)
  ultimately show ?thesis
    by (simp add: split_pop_no_slash split_pop_bare split_pop_idem)
qed

theorem zone_id_normalised_witness:
  "(\<exists>st S st1.
      listHostedZones two_zone_client \<lparr>heap = [], sent = []\<rparr> [] None = Some (st, Inr S) \<and>
      map (\<lambda>r. zone_Id (heap st ! r)) S = [''Z1'', ''Z2''] \<and>
      getRecordSetsForZones two_zone_client st S = Some (st1, Inr ()) \<and>
      map zone_Id (heap st1) = map zone_Id (heap st)) \<and>
   split_pop ''Z1'' = ''Z1''"
  using zone_id_normalised [OF two_zone_pages two_zone_all_rr, of "''Z1''"]
  by (simp add: zone_page_def raw_zone_def split_pop_def)

text \<open>
  C8. The first request for the record sets of a zone carries no start record, and the
  request after every truncated page carries the \<^verbatim>\<open>NextRecordName\<close>,
  \<^verbatim>\<open>NextRecordType\<close> and \<^verbatim>\<open>NextRecordIdentifier\<close> of that page as its start record.
  In the same way the first request for the zones carries no marker, and the request
  after every truncated page carries the \<^verbatim>\<open>NextMarker\<close> of that page.
\<close>

theorem cursors_threaded:
  assumes "zone_pages c None zps" and "rr_pages c (zone_Id (heap st ! r)) None ps"
  shows "(\<exists>st1 S. listHostedZones c \<lparr>heap = [], sent = []\<rparr> [] None = Some (st1, Inr S) \<and>
            sent st1 = ListHostedZonesCommand None #
                       map (\<lambda>p. ListHostedZonesCommand (NextMarker p)) (butlast zps)) \<and>
         (\<exists>st2 rsets. getRecordSetsForZone c st r [] None = Some (st2, Inr rsets) \<and>
            sent st2 = sent st @
              ListResourceRecordSetsCommand
                \<lparr>HostedZoneId = zone_Id (heap st ! r), StartRecordName = None,
                 StartRecordType = None, StartRecordIdentifier = None\<rparr> #
              map (\<lambda>p. ListResourceRecordSetsCommand
                     \<lparr>HostedZoneId = zone_Id (heap st ! r),
                      StartRecordName = NextRecordName p,
                      StartRecordType = NextRecordType p,
                      StartRecordIdentifier = NextRecordIdentifier p\<rparr>) (butlast ps)) \<and>
         list_all IsTruncated (butlast zps) \<and> list_all IsTruncatedRR (butlast ps)"
proof -
  have "listHostedZones c \<lparr>heap = [], sent = []\<rparr> [] None =
     Some (\<lparr>heap = map stored_zone (concat (map HostedZones zps)),
            sent = zone_requests None (butlast zps)\<rparr>,
           Inr [0 ..< length (concat (map HostedZones zps))])"
    using listHostedZones_pages [OF assms(1), of "[]" "\<lparr>heap = [], sent = []\<rparr>"] by simp
  then have zones: "\<exists>st1 S. listHostedZones c \<lparr>heap = [], sent = []\<rparr> [] None = Some (st1, Inr S) \<and>
            sent st1 = ListHostedZonesCommand None #
                       map (\<lambda>p. ListHostedZonesCommand (NextMarker p)) (butlast zps)"
    by (simp add: zone_requests_def)
  have "getRecordSetsForZone c st r [] None =
     Some (st\<lparr>sent := sent st @ rr_requests (zone_Id (heap st ! r)) None (butlast ps)\<rparr>,
           Inr ([] @ concat (map ResourceRecordSets ps)))"
    using getRecordSetsForZone_pages [OF assms(2) refl] .
  then have sets: "\<exists>st2 rsets. getRecordSetsForZone c st r [] None = Some (st2, Inr rsets) \<and>
            sent st2 = sent st @
              ListResourceRecordSetsCommand
                \<lparr>HostedZoneId = zone_Id (heap st ! r), StartRecordName = None,
                 StartRecordType = None, StartRecordIdentifier = None\<rparr> #
              map (\<lambda>p. ListResourceRecordSetsCommand
                     \<lparr>HostedZoneId = zone_Id (heap st ! r),
                      StartRecordName = NextRecordName p,
                      StartRecordType = NextRecordType p,
                      StartRecordIdentifier = NextRecordIdentifier p\<rparr>) (butlast ps)"
    by (simp add: rr_requests_def rr_params_def next_start_def)
  from zones sets zone_pages_truncated [OF assms(1)] rr_pages_truncated [OF assms(2)]
  show ?thesis by blast
qed

theorem cursors_threaded_witness:
  "zone_pages two_zone_client None
     [zone_page [raw_zone ''/hostedzone/Z1'' ''example.com.''] (Some ''m1''),
      zone_page [raw_zone ''/hostedzone/Z2'' ''example.org.''] None] \<and>
   rr_pages two_zone_client ''Z1'' None
     [rr_page [alias_set ''www.example.com.'' ''A'' ''lb.example.net.'']
        (start_at ''foo.example.com.'' ''NS''),
      rr_page [literal_set ''foo.example.com.'' ''NS''
                 [''lb.example.net'', ''ns2.example.net.'', ''lb.example.net.''],
               empty_set ''odd.example.com.'' ''TXT''] None] \<and>
   (\<exists>st1 S. listHostedZones two_zone_client \<lparr>heap = [], sent = []\<rparr> [] None = Some (st1, Inr S) \<and>
      sent st1 = [ListHostedZonesCommand None, ListHostedZonesCommand (Some ''m1'')]) \<and>
   (\<exists>st2 rsets.
      getRecordSetsForZone two_zone_client
        \<lparr>heap = [\<lparr>zone_Id = ''Z1'', zone_Name = ''example.com.'', recordSets = None\<rparr>], sent = []\<rparr>
        0 [] None = Some (st2, Inr rsets) \<and>
      sent st2 =
        [ListResourceRecordSetsCommand
           \<lparr>HostedZoneId = ''Z1'', StartRecordName = None, StartRecordType = None,
            StartRecordIdentifier = None\<rparr>,
         ListResourceRecordSetsCommand
           \<lparr>HostedZoneId = ''Z1'', StartRecordName = Some ''foo.example.com.'',
            StartRecordType = Some ''NS'', StartRecordIdentifier = None\<rparr>])"
proof -
  let ?st = "\<lparr>heap = [\<lparr>zone_Id = ''Z1'', zone_Name = ''example.com.'', recordSets = None\<rparr>],
              sent = []\<rparr>"
  have rr: "rr_pages two_zone_client (zone_Id (heap ?st ! 0)) None
     [rr_page [alias_set ''www.example.com.'' ''A'' ''lb.example.net.'']
        (start_at ''foo.example.com.'' ''NS''),
      rr_page [literal_set ''foo.example.com.'' ''NS''
                 [''lb.example.net'', ''ns2.example.net.'', ''lb.example.net.''],
               empty_set ''odd.example.com.'' ''TXT''] None]"
    using two_zone_rr_Z1 by simp
  from cursors_threaded [OF two_zone_pages rr] two_zone_pages two_zone_rr_Z1
  show ?thesis
    by (simp add: zone_page_def rr_page_def start_at_def)
qed

subsection \<open>Matching a value\<close>

text \<open>
  C2. With \<^verbatim>\<open>match\<close> set to \<^verbatim>\<open>equality\<close>, a candidate value matches exactly when it is
  the configured target or the target followed by one dot. The candidate is compared as
  it is: nothing is stripped from it, so the target \<^verbatim>\<open>example.com\<close> matches the
  candidates \<^verbatim>\<open>example.com\<close> and \<^verbatim>\<open>example.com.\<close>, and the target \<^verbatim>\<open>example.com.\<close>
  matches the candidate \<^verbatim>\<open>example.com.\<close> but not \<^verbatim>\<open>example.com\<close> (the witness).
\<close>

theorem equality_match_dot:
  "opt_match opts = ''equality'' \<Longrightarrow>
   evaluateRecord RegExp opts v = Inr (v = opt_record opts \<or> v = opt_record opts @ ''.'')"
  by (auto simp: evaluateRecord_def)

theorem equality_match_dot_witness:
  "evaluateRecord no_RegExp \<lparr>opt_record = ''example.com'', opt_match = ''equality''\<rparr> ''example.com''
     = Inr True \<and>
   evaluateRecord no_RegExp \<lparr>opt_record = ''example.com'', opt_match = ''equality''\<rparr> ''example.com.''
     = Inr True \<and>
   evaluateRecord no_RegExp \<lparr>opt_record = ''example.com.'', opt_match = ''equality''\<rparr> ''example.com.''
     = Inr True \<and>
   evaluateRecord no_RegExp \<lparr>opt_record = ''example.com.'', opt_match = ''equality''\<rparr> ''example.com''
     = Inr False"
  using
    equality_match_dot [where RegExp = no_RegExp and v = "''example.com''"
      and opts = "\<lparr>opt_record = ''example.com'', opt_match = ''equality''\<rparr>"]
    equality_match_dot [where RegExp = no_RegExp and v = "''example.com.''"
      and opts = "\<lparr>opt_record = ''example.com'', opt_match = ''equality''\<rparr>"]
    equality_match_dot [where RegExp = no_RegExp and v = "''example.com.''"
      and opts = "\<lparr>opt_record = ''example.com.'', opt_match = ''equality''\<rparr>"]
    equality_match_dot [where RegExp = no_RegExp and v = "''example.com''"
      and opts = "\<lparr>opt_record = ''example.com.'', opt_match = ''equality''\<rparr>"]
  by simp

subsection \<open>The rows of the search\<close>

text \<open>
  C4. With a target that can be evaluated, the step of the search for one record set
  \<open>rs\<close> appends the rows of exactly one of its two shapes to the rows found so far. If
  \<open>rs\<close> has an alias target, its DNS name is evaluated once and \<open>rs\<close> gives one row or
  none, whatever its \<^verbatim>\<open>ResourceRecords\<close> hold; otherwise, if it has \<open>n\<close> literal values,
  it gives one row for each value that matches, in order, hence at most \<open>n\<close> rows.
\<close>

theorem alias_before_literals:
  assumes "evaluable RegExp opts"
  shows "find_in_record_sets RegExp opts z (rs # rest) acc =
           find_in_record_sets RegExp opts z rest (acc @ rows_of_record_set RegExp opts z rs) \<and>
         find_in_record_sets RegExp opts z [rs] acc = Inr (acc @ rows_of_record_set RegExp opts z rs) \<and>
         (case AliasTarget rs of
            Some a \<Rightarrow>
              rows_of_record_set RegExp opts z rs =
                (if matches RegExp opts (DNSName a)
                 then [createResultEntry z ''Alias'' (Name rs) (DNSName a)] else []) \<and>
              length (rows_of_record_set RegExp opts z rs) \<le> 1
          | None \<Rightarrow>
              (case ResourceRecords rs of
                 Some rrs \<Rightarrow>
                   rows_of_record_set RegExp opts z rs =
                     map (\<lambda>rr. createResultEntry z (Type rs) (Name rs) (Value rr))
                       (filter (\<lambda>rr. matches RegExp opts (Value rr)) rrs) \<and>
                   length (rows_of_record_set RegExp opts z rs) \<le> length rrs
               | None \<Rightarrow> rows_of_record_set RegExp opts z rs = []))"
proof -
  have step: "find_in_record_sets RegExp opts z (rs # rest) acc =
              find_in_record_sets RegExp opts z rest (acc @ rows_of_record_set RegExp opts z rs)" for rest
    using assms by (rule find_in_record_sets_step)
  have shape: "(case AliasTarget rs of
            Some a \<Rightarrow>
              rows_of_record_set RegExp opts z rs =
                (if matches RegExp opts (DNSName a)
                 then [createResultEntry z ''Alias'' (Name rs) (DNSName a)] else []) \<and>
              length (rows_of_record_set RegExp opts z rs) \<le> 1
          | None \<Rightarrow>
              (case ResourceRecords rs of
                 Some rrs \<Rightarrow>
                   rows_of_record_set RegExp opts z rs =
                     map (\<lambda>rr. createResultEntry z (Type rs) (Name rs) (Value rr))
                       (filter (\<lambda>rr. matches RegExp opts (Value rr)) rrs) \<and>
                   length (rows_of_record_set RegExp opts z rs) \<le> length rrs
               | None \<Rightarrow> rows_of_record_set RegExp opts z rs = []))"
    by (simp add: rows_of_record_set_def split: option.splits)
  from step [of rest] step [of "[]"] shape show ?thesis by simp
qed

theorem alias_before_literals_witness:
  "evaluable no_RegExp \<lparr>opt_record = ''5.6.7.8'', opt_match = ''equality''\<rparr> \<and>
   find_in_record_sets no_RegExp \<lparr>opt_record = ''5.6.7.8'', opt_match = ''equality''\<rparr>
     \<lparr>zone_Id = ''Z1'', zone_Name = ''example.com.'', recordSets = None\<rparr>
     [\<lparr>Name = ''www.example.com.'', Type = ''A'', AliasTarget = Some \<lparr>DNSName = ''5.6.7.8''\<rparr>,
       ResourceRecords = Some [\<lparr>Value = ''5.6.7.8''\<rparr>, \<lparr>Value = ''5.6.7.8''\<rparr>]\<rparr>] [] =
     Inr [\<lparr>hostedZoneId = ''Z1'', hostedZoneName = ''example.com.'', recordType = ''Alias'',
           recordName = ''www.example.com.'', recordValue = ''5.6.7.8''\<rparr>] \<and>
   find_in_record_sets no_RegExp \<lparr>opt_record = ''5.6.7.8'', opt_match = ''equality''\<rparr>
     \<lparr>zone_Id = ''Z1'', zone_Name = ''example.com.'', recordSets = None\<rparr>
     [literal_set ''foo.example.com.'' ''A'' [''5.6.7.8'', ''1.2.3.4'', ''5.6.7.8.'']] [] =
     Inr [\<lparr>hostedZoneId = ''Z1'', hostedZoneName = ''example.com.'', recordType = ''A'',
           recordName = ''foo.example.com.'', recordValue = ''5.6.7.8''\<rparr>,
          \<lparr>hostedZoneId = ''Z1'', hostedZoneName = ''example.com.'', recordType = ''A'',
           recordName = ''foo.example.com.'', recordValue = ''5.6.7.8.''\<rparr>]"
proof -
  let ?opts = "\<lparr>opt_record = ''5.6.7.8'', opt_match = ''equality''\<rparr>"
  let ?z = "\<lparr>zone_Id = ''Z1'', zone_Name = ''example.com.'', recordSets = None\<rparr>"
  let ?both = "\<lparr>Name = ''www.example.com.'', Type = ''A'',
                AliasTarget = Some \<lparr>DNSName = ''5.6.7.8''\<rparr>,
                ResourceRecords = Some [\<lparr>Value = ''5.6.7.8''\<rparr>, \<lparr>Value = ''5.6.7.8''\<rparr>]\<rparr>"
  let ?lit = "literal_set ''foo.example.com.'' ''A'' [''5.6.7.8'', ''1.2.3.4'', ''5.6.7.8.'']"
  have ev: "evaluable no_RegExp ?opts"
    by (rule equality_evaluable)
  have rows_both: "rows_of_record_set no_RegExp ?opts ?z ?both =
     [\<lparr>hostedZoneId = ''Z1'', hostedZoneName = ''example.com.'', recordType = ''Alias'',
       recordName = ''www.example.com.'', recordValue = ''5.6.7.8''\<rparr>]"
    by (simp add: rows_of_record_set_def matches_def evaluateRecord_def createResultEntry_def)
  have rows_lit: "rows_of_record_set no_RegExp ?opts ?z ?lit =
     [\<lparr>hostedZoneId = ''Z1'', hostedZoneName = ''example.com.'', recordType = ''A'',
       recordName = ''foo.example.com.'', recordValue = ''5.6.7.8''\<rparr>,
      \<lparr>hostedZoneId = ''Z1'', hostedZoneName = ''example.com.'', recordType = ''A'',
       recordName = ''foo.example.com.'', recordValue = ''5.6.7.8.''\<rparr>]"
    by (simp add: literal_set_def rows_of_record_set_def matches_def evaluateRecord_def
        createResultEntry_def)
  have "find_in_record_sets no_RegExp ?opts ?z [?both] [] = Inr ([] @ rows_of_record_set no_RegExp ?opts ?z ?both)"
    using alias_before_literals [OF ev, of ?z ?both "[]" "[]"] by blast
  moreover
  have "find_in_record_sets no_RegExp ?opts ?z [?lit] [] = Inr ([] @ rows_of_record_set no_RegExp ?opts ?z ?lit)"
    using alias_before_literals [OF ev, of ?z ?lit "[]" "[]"] by blast
  ultimately show ?thesis
    using ev by (simp only: rows_both rows_lit append_Nil simp_thms)
qed

text \<open>
  C10. With a target that can be evaluated, the rows that the search returns for a
  record set are the rows found before followed by the rows of that record set, and
  every row of a record set with an alias target has the record type \<^verbatim>\<open>Alias\<close>,
  whatever the type of the record set; every row of a record set without one has the
  type of the record set.
\<close>

theorem alias_rows_typed_Alias:
  assumes "evaluable RegExp opts"
  shows "find_in_record_sets RegExp opts z (rs # rest) acc =
           find_in_record_sets RegExp opts z rest (acc @ rows_of_record_set RegExp opts z rs) \<and>
         find_in_record_sets RegExp opts z [rs] acc =
           Inr (acc @ rows_of_record_set RegExp opts z rs) \<and>
         find_in_record_sets RegExp opts z rsets acc =
           Inr (acc @ concat (map (rows_of_record_set RegExp opts z) rsets)) \<and>
         list_all (\<lambda>row. recordType row = (if AliasTarget rs = None then Type rs else ''Alias''))
           (rows_of_record_set RegExp opts z rs)"
proof -
  have typed: "list_all
      (\<lambda>row. recordType row = (if AliasTarget rs = None then Type rs else ''Alias''))
      (rows_of_record_set RegExp opts z rs)"
    by (auto simp: rows_of_record_set_def createResultEntry_def list_all_iff
        split: option.splits)
  have step: "find_in_record_sets RegExp opts z (rs # rest) acc =
      find_in_record_sets RegExp opts z rest (acc @ rows_of_record_set RegExp opts z rs)" for rest
    using assms by (rule find_in_record_sets_step)
  have all: "find_in_record_sets RegExp opts z rsets acc =
      Inr (acc @ concat (map (rows_of_record_set RegExp opts z) rsets))"
    using find_in_record_sets_rows [OF assms, of z rsets acc] by (simp add: rows_of_zone_def)
  from step [of rest] step [of "[]"] all typed show ?thesis by simp
qed

theorem alias_rows_typed_Alias_witness:
  "evaluable no_RegExp \<lparr>opt_record = ''lb.example.net'', opt_match = ''equality''\<rparr> \<and>
   find_in_record_sets no_RegExp \<lparr>opt_record = ''lb.example.net'', opt_match = ''equality''\<rparr>
     \<lparr>zone_Id = ''Z1'', zone_Name = ''example.com.'', recordSets = None\<rparr>
     [alias_set ''www.example.com.'' ''A'' ''lb.example.net.'',
      literal_set ''cname.example.com.'' ''CNAME'' [''lb.example.net.'']] [] =
     Inr [\<lparr>hostedZoneId = ''Z1'', hostedZoneName = ''example.com.'', recordType = ''Alias'',
           recordName = ''www.example.com.'', recordValue = ''lb.example.net.''\<rparr>,
          \<lparr>hostedZoneId = ''Z1'', hostedZoneName = ''example.com.'', recordType = ''CNAME'',
           recordName = ''cname.example.com.'', recordValue = ''lb.example.net.''\<rparr>]"
proof -
  let ?opts = "\<lparr>opt_record = ''lb.example.net'', opt_match = ''equality''\<rparr>"
  let ?z = "\<lparr>zone_Id = ''Z1'', zone_Name = ''example.com.'', recordSets = None\<rparr>"
  let ?als = "alias_set ''www.example.com.'' ''A'' ''lb.example.net.''"
  let ?lit = "literal_set ''cname.example.com.'' ''CNAME'' [''lb.example.net.'']"
  have ev: "evaluable no_RegExp ?opts"
    by (rule equality_evaluable)
  have rows_alias: "rows_of_record_set no_RegExp ?opts ?z ?als =
     [\<lparr>hostedZoneId = ''Z1'', hostedZoneName = ''example.com.'', recordType = ''Alias'',
       recordName = ''www.example.com.'', recordValue = ''lb.example.net.''\<rparr>]"
    by (simp add: alias_set_def rows_of_record_set_def matches_def evaluateRecord_def
        createResultEntry_def)
  have rest: "find_in_record_sets no_RegExp ?opts ?z [?lit]
       [\<lparr>hostedZoneId = ''Z1'', hostedZoneName = ''example.com.'', recordType = ''Alias'',
         recordName = ''www.example.com.'', recordValue = ''lb.example.net.''\<rparr>] =
     Inr [\<lparr>hostedZoneId = ''Z1'', hostedZoneName = ''example.com.'', recordType = ''Alias'',
           recordName = ''www.example.com.'', recordValue = ''lb.example.net.''\<rparr>,
          \<lparr>hostedZoneId = ''Z1'', hostedZoneName = ''example.com.'', recordType = ''CNAME'',
           recordName = ''cname.example.com.'', recordValue = ''lb.example.net.''\<rparr>]"
    by (simp add: literal_set_def evaluateRecord_def createResultEntry_def)
  have "find_in_record_sets no_RegExp ?opts ?z [?als, ?lit] [] =
        find_in_record_sets no_RegExp ?opts ?z [?lit]
          ([] @ rows_of_record_set no_RegExp ?opts ?z ?als)"
    using alias_rows_typed_Alias [OF ev, where z = ?z and rs = ?als and rest = "[?lit]"
        and acc = "[]"]
    by blast
  then show ?thesis
    using ev by (simp only: rows_alias rest append_Nil simp_thms)
qed

text \<open>
  C7. A record set with neither an alias target nor resource records gives no row and
  no error, and the search goes on: with such a record set anywhere in the record sets
  of a zone, the outcome of the search, rows and errors alike, is the outcome without it.
\<close>

theorem empty_record_set_skipped:
  assumes "AliasTarget rs = None" and "ResourceRecords rs = None"
  shows "find_in_record_sets RegExp opts z [rs] acc = Inr acc \<and>
         find_in_record_sets RegExp opts z (pre @ rs # post) acc =
           find_in_record_sets RegExp opts z (pre @ post) acc \<and>
         (recordSets (h ! r) = Some (pre @ rs # post) \<longrightarrow>
            findRecord RegExp opts h refs =
              findRecord RegExp opts (h[r := (h ! r)\<lparr>recordSets := Some (pre @ post)\<rparr>]) refs)"
  using assms find_in_record_sets_skip [OF assms, of RegExp opts z pre post acc]
    find_in_zones_skip [OF assms, of h r pre post RegExp opts refs "[]"]
  by (simp add: findRecord_def)

theorem empty_record_set_skipped_witness:
  "AliasTarget (empty_set ''odd.example.com.'' ''TXT'') = None \<and>
   ResourceRecords (empty_set ''odd.example.com.'' ''TXT'') = None \<and>
   findRecord no_RegExp \<lparr>opt_record = ''5.6.7.8'', opt_match = ''equality''\<rparr>
     [\<lparr>zone_Id = ''Z1'', zone_Name = ''example.com.'',
       recordSets = Some [literal_set ''foo.example.com.'' ''A'' [''5.6.7.8''],
                          empty_set ''odd.example.com.'' ''TXT'',
                          literal_set ''bar.example.com.'' ''A'' [''5.6.7.8'']]\<rparr>] [0] =
     Inr [\<lparr>hostedZoneId = ''Z1'', hostedZoneName = ''example.com.'', recordType = ''A'',
           recordName = ''foo.example.com.'', recordValue = ''5.6.7.8''\<rparr>,
          \<lparr>hostedZoneId = ''Z1'', hostedZoneName = ''example.com.'', recordType = ''A'',
           recordName = ''bar.example.com.'', recordValue = ''5.6.7.8''\<rparr>]"
proof -
  let ?opts = "\<lparr>opt_record = ''5.6.7.8'', opt_match = ''equality''\<rparr>"
  let ?e = "empty_set ''odd.example.com.'' ''TXT''"
  let ?a = "literal_set ''foo.example.com.'' ''A'' [''5.6.7.8'']"
  let ?b = "literal_set ''bar.example.com.'' ''A'' [''5.6.7.8'']"
  let ?h = "[\<lparr>zone_Id = ''Z1'', zone_Name = ''example.com.'',
              recordSets = Some ([?a] @ ?e # [?b])\<rparr>]"
  have e: "AliasTarget ?e = None" "ResourceRecords ?e = None"
    by (simp_all add: empty_set_def)
  have stored: "recordSets (?h ! 0) = Some ([?a] @ ?e # [?b])"
    by simp
  have without: "findRecord no_RegExp ?opts (?h[0 := (?h ! 0)\<lparr>recordSets := Some ([?a] @ [?b])\<rparr>]) [0] =
     Inr [\<lparr>hostedZoneId = ''Z1'', hostedZoneName = ''example.com.'', recordType = ''A'',
           recordName = ''foo.example.com.'', recordValue = ''5.6.7.8''\<rparr>,
          \<lparr>hostedZoneId = ''Z1'', hostedZoneName = ''example.com.'', recordType = ''A'',
           recordName = ''bar.example.com.'', recordValue = ''5.6.7.8''\<rparr>]"
    by (simp add: findRecord_def literal_set_def evaluateRecord_def createResultEntry_def)
  have "findRecord no_RegExp ?opts ?h [0] =
        findRecord no_RegExp ?opts (?h[0 := (?h ! 0)\<lparr>recordSets := Some ([?a] @ [?b])\<rparr>]) [0]"
    using empty_record_set_skipped [OF e, where h = ?h and r = 0 and pre = "[?a]"
        and post = "[?b]" and opts = ?opts and refs = "[0]" and RegExp = no_RegExp] stored
    by blast
  with without e show ?thesis
    by (simp only: append_Cons append_Nil simp_thms)
qed

text \<open>
  C5. The rows of a run are determined by what the service lists, and come in order:
  zone by zone in the order of the zone listing, within a zone record set by record
  set in the order of the responses (the pages of a zone concatenated in response
  order), and within a record set value by value (\<open>rows_of_record_set\<close> keeps the order
  of the values).
\<close>

theorem rows_in_enumeration_order:
  assumes "zone_pages c None zps"
    and "list_all2 (\<lambda>z ps. rr_pages c (zone_Id z) None ps) (zones_of zps) pss"
    and "evaluable RegExp opts"
  shows "\<exists>st. run c RegExp opts =
     Some (st, Inr (concat (map2 (\<lambda>z ps.
                      concat (map (rows_of_record_set RegExp opts z)
                                (concat (map ResourceRecordSets ps))))
                    (zones_of zps) pss)))"
  using run_rows [OF assms] by (simp add: rows_of_zone_def listed_def)

theorem rows_in_enumeration_order_witness:
  "evaluable no_RegExp \<lparr>opt_record = ''lb.example.net'', opt_match = ''equality''\<rparr> \<and>
   (\<exists>st. run two_zone_client no_RegExp
           \<lparr>opt_record = ''lb.example.net'', opt_match = ''equality''\<rparr> =
     Some (st, Inr
       [\<lparr>hostedZoneId = ''Z1'', hostedZoneName = ''example.com.'', recordType = ''Alias'',
         recordName = ''www.example.com.'', recordValue = ''lb.example.net.''\<rparr>,
        \<lparr>hostedZoneId = ''Z1'', hostedZoneName = ''example.com.'', recordType = ''NS'',
         recordName = ''foo.example.com.'', recordValue = ''lb.example.net''\<rparr>,
        \<lparr>hostedZoneId = ''Z1'', hostedZoneName = ''example.com.'', recordType = ''NS'',
         recordName = ''foo.example.com.'', recordValue = ''lb.example.net.''\<rparr>,
        \<lparr>hostedZoneId = ''Z2'', hostedZoneName = ''example.org.'', recordType = ''CNAME'',
         recordName = ''bar.example.org.'', recordValue = ''lb.example.net.''\<rparr>]))"
proof -
  let ?opts = "\<lparr>opt_record = ''lb.example.net'', opt_match = ''equality''\<rparr>"
  have ev: "evaluable no_RegExp ?opts"
    by (rule equality_evaluable)
  from rows_in_enumeration_order [OF two_zone_pages two_zone_all_rr ev] ev
  show ?thesis
    by (simp add: zones_of_def zone_page_def raw_zone_def stored_zone_def split_pop_def
        rr_page_def rows_of_record_set_def alias_set_def literal_set_def empty_set_def
        createResultEntry_def matches_def evaluateRecord_def)
qed

subsection \<open>Failing calls\<close>

text \<open>
  C6. If a call fails while the zones are listed, or while the record sets of one of
  the zones are listed, the run ends with that error and without rows. The failing
  request is the last one that was sent and it was sent once: nothing is retried, and
  no later zone is asked for.
\<close>

theorem api_error_aborts_run:
  "(zone_pages_fail c None zps e \<longrightarrow>
      run c RegExp opts = Some (\<lparr>heap = zones_of zps, sent = zone_requests None zps\<rparr>, Inl e)) \<and>
   (zone_pages c None zps' \<and> zones_of zps' = pre @ z # post \<and>
    list_all2 (\<lambda>z ps. rr_pages c (zone_Id z) None ps) pre pss \<and>
    rr_pages_fail c (zone_Id z) None fps e' \<longrightarrow>
      (\<exists>h. run c RegExp opts =
         Some (\<lparr>heap = h,
                sent = zone_requests None (butlast zps') @
                       concat (map2 (\<lambda>z ps. rr_requests (zone_Id z) None (butlast ps)) pre pss) @
                       rr_requests (zone_Id z) None fps\<rparr>,
               Inl e')))"
  using run_zones_fail [of c zps e RegExp opts]
    run_rr_fail [of c zps' pre z post pss fps e' RegExp opts]
  by blast

theorem api_error_aborts_run_witness:
  "run zones_fail_client no_RegExp \<lparr>opt_record = ''5.6.7.8'', opt_match = ''equality''\<rparr> =
     Some (\<lparr>heap = [\<lparr>zone_Id = ''Z1'', zone_Name = ''example.com.'', recordSets = None\<rparr>],
            sent = [ListHostedZonesCommand None, ListHostedZonesCommand (Some ''m1'')]\<rparr>,
           Inl (ApiError ''Throttling'')) \<and>
   (\<exists>h. run rr_fail_client no_RegExp \<lparr>opt_record = ''5.6.7.8'', opt_match = ''equality''\<rparr> =
     Some (\<lparr>heap = h,
            sent = [ListHostedZonesCommand None, ListHostedZonesCommand (Some ''m1''),
                    ListResourceRecordSetsCommand (rr_params ''Z1'' None),
                    ListResourceRecordSetsCommand (rr_params ''Z2'' None),
                    ListResourceRecordSetsCommand
                      (rr_params ''Z2'' (start_at ''baz.example.org.'' ''A''))]\<rparr>,
           Inl (ApiError ''Throttling'')))"
proof -
  let ?opts = "\<lparr>opt_record = ''5.6.7.8'', opt_match = ''equality''\<rparr>"
  have a: "run zones_fail_client no_RegExp ?opts =
     Some (\<lparr>heap = [\<lparr>zone_Id = ''Z1'', zone_Name = ''example.com.'', recordSets = None\<rparr>],
            sent = [ListHostedZonesCommand None, ListHostedZonesCommand (Some ''m1'')]\<rparr>,
           Inl (ApiError ''Throttling''))"
    using api_error_aborts_run [where c = zones_fail_client and RegExp = no_RegExp
        and opts = ?opts and e = "ApiError ''Throttling''"
        and zps = "[zone_page [raw_zone ''/hostedzone/Z1'' ''example.com.''] (Some ''m1'')]"]
      zones_fail_pages
    by (simp add: zones_of_def zone_page_def raw_zone_def stored_zone_def split_pop_def
        zone_requests_def)
  have b: "\<exists>h. run rr_fail_client no_RegExp ?opts =
     Some (\<lparr>heap = h,
            sent = [ListHostedZonesCommand None, ListHostedZonesCommand (Some ''m1''),
                    ListResourceRecordSetsCommand (rr_params ''Z1'' None),
                    ListResourceRecordSetsCommand (rr_params ''Z2'' None),
                    ListResourceRecordSetsCommand
                      (rr_params ''Z2'' (start_at ''baz.example.org.'' ''A''))]\<rparr>,
           Inl (ApiError ''Throttling''))"
    using api_error_aborts_run [where c = rr_fail_client and RegExp = no_RegExp
        and opts = ?opts and e' = "ApiError ''Throttling''"
        and zps' = "[zone_page [raw_zone ''/hostedzone/Z1'' ''example.com.''] (Some ''m1''),
                     zone_page [raw_zone ''/hostedzone/Z2'' ''example.org.''] None]"
        and pre = "[\<lparr>zone_Id = ''Z1'', zone_Name = ''example.com.'', recordSets = None\<rparr>]"
        and z = "\<lparr>zone_Id = ''Z2'', zone_Name = ''example.org.'', recordSets = None\<rparr>"
        and post = "[]"
        and pss = "[[rr_page [literal_set ''foo.example.com.'' ''A'' [''5.6.7.8'']] None]]"
        and fps = "[rr_page [literal_set ''bar.example.org.'' ''A'' [''5.6.7.8'']]
                      (start_at ''baz.example.org.'' ''A'')]"]
      rr_fail_pages
    by (simp add: zone_requests_def rr_requests_def zone_page_def next_start_def rr_page_def
        start_at_def)
  from a b show ?thesis by blast
qed

end
